theory Spec2Isabelle
  imports Complex_Main "HOL-Library.Sublist" "HOL-Library.Multiset"
begin

section \<open>Constants: \<^verbatim>\<open>api/src/constants\<close>\<close>

datatype IssueType = TASK | BUG | STORY

datatype IssueStatus = BACKLOG | SELECTED | INPROGRESS | DONE

datatype IssuePriority = HIGHEST | HIGH | MEDIUM | LOW | LOWEST

datatype ProjectCategory = SOFTWARE | MARKETING | BUSINESS

section \<open>Entities: \<^verbatim>\<open>api/src/entities\<close>\<close>

text \<open>
  One record per entity class, one field per column. The primary key \<^verbatim>\<open>id\<close> and the
  fields that several entities share carry the entity's name, since record fields share one
  name space. The two timestamp columns are filled by the database clock and left out.
  Nullable columns are options. \<^verbatim>\<open>listPosition\<close> is a \<^verbatim>\<open>double precision\<close> column
  and a JavaScript number: a key is the real number that the double denotes, and the
  arithmetic of the midpoint is rounded as double arithmetic rounds it (see the allocator).
\<close>

record project =
  project_id :: nat
  project_name :: string
  url :: "string option"
  project_description :: "string option"
  category :: ProjectCategory

record user =
  user_id :: nat
  user_name :: string
  email :: string
  avatarUrl :: string
  user_projectId :: "nat option"

record issue =
  issue_id :: nat
  title :: string
  issue_type :: IssueType
  status :: IssueStatus
  priority :: IssuePriority
  listPosition :: real
  description :: "string option"
  descriptionText :: "string option"
  estimate :: "int option"
  timeSpent :: "int option"
  timeRemaining :: "int option"
  reporterId :: nat
  projectId :: nat
  userIds :: "nat list"

record comment =
  comment_id :: nat
  body :: string
  userId :: nat
  issueId :: nat

text \<open>
  The database: one table per entity, rows in insertion order, and the sequence behind each
  \<^verbatim>\<open>@PrimaryGeneratedColumn()\<close>.
\<close>

record database =
  users :: "user list"
  projects :: "project list"
  issues :: "issue list"
  comments :: "comment list"
  next_user_id :: nat
  next_project_id :: nat
  next_issue_id :: nat
  next_comment_id :: nat

definition empty_database :: database where
  "empty_database = \<lparr>users = [], projects = [], issues = [], comments = [],
     next_user_id = 1, next_project_id = 1, next_issue_id = 1, next_comment_id = 1\<rparr>"

section \<open>The description hook of \<^verbatim>\<open>Issue\<close>\<close>

text \<open>
  Modelled from the spec: \<^verbatim>\<open>striptags\<close>, the npm package that \<^verbatim>\<open>Issue.ts\<close> imports and
  that is not part of the sources. The spec says it strips markup tags and preserves
  whitespace: every run from \<^verbatim>\<open><\<close> to the next \<^verbatim>\<open>>\<close> is dropped and every other
  character is kept. The flag tells whether the scan is inside a tag.
\<close>

fun strip :: "bool \<Rightarrow> string \<Rightarrow> string" where
  "strip inTag [] = []"
| "strip False (c # cs) = (if c = CHR ''<'' then strip True cs else c # strip False cs)"
| "strip True (c # cs) = (if c = CHR ''>'' then strip False cs else strip True cs)"

definition striptags :: "string \<Rightarrow> string" where
  "striptags html = strip False html"

text \<open>
  \<^verbatim>\<open>setDescriptionText\<close>, registered with \<^verbatim>\<open>@BeforeInsert()\<close> and \<^verbatim>\<open>@BeforeUpdate()\<close>:
  \<^verbatim>\<open>if (this.description) { this.descriptionText = striptags(this.description); }\<close>.
  Both \<^verbatim>\<open>null\<close> and the empty string are falsy.
\<close>

definition setDescriptionText :: "issue \<Rightarrow> issue" where
  "setDescriptionText i =
     (case description i of
        None \<Rightarrow> i
      | Some d \<Rightarrow> if d = [] then i else i\<lparr>descriptionText := Some (striptags d)\<rparr>)"

section \<open>Saving entities\<close>

text \<open>
  Modelled from the spec: \<^verbatim>\<open>createEntity\<close> of \<^verbatim>\<open>utils/typeorm\<close>, which is not part of the
  sources. Entities are created from the input and inserted: the insert hooks run, the row
  receives the next value of its sequence and is appended to its table. The declarative
  validation rules are not modelled. Saving a project with a \<^verbatim>\<open>users\<close> relation sets the
  foreign key of those users.
\<close>

definition createEntity_User :: "user \<Rightarrow> database \<Rightarrow> user \<times> database" where
  "createEntity_User input db =
     (let u = input\<lparr>user_id := next_user_id db\<rparr>
      in (u, db\<lparr>users := users db @ [u], next_user_id := Suc (next_user_id db)\<rparr>))"

definition createEntity_Project ::
  "project \<Rightarrow> user list \<Rightarrow> database \<Rightarrow> (project \<times> user list) \<times> database" where
  "createEntity_Project input us db =
     (let p = input\<lparr>project_id := next_project_id db\<rparr>;
          assign = (\<lambda>u. if user_id u \<in> set (map user_id us)
                          then u\<lparr>user_projectId := Some (project_id p)\<rparr> else u)
      in ((p, map assign us),
          db\<lparr>projects := projects db @ [p], users := map assign (users db),
             next_project_id := Suc (next_project_id db)\<rparr>))"

definition createEntity_Issue :: "issue \<Rightarrow> database \<Rightarrow> issue \<times> database" where
  "createEntity_Issue input db =
     (let i = (setDescriptionText input)\<lparr>issue_id := next_issue_id db\<rparr>
      in (i, db\<lparr>issues := issues db @ [i], next_issue_id := Suc (next_issue_id db)\<rparr>))"

definition createEntity_Comment :: "comment \<Rightarrow> database \<Rightarrow> comment \<times> database" where
  "createEntity_Comment input db =
     (let c = input\<lparr>comment_id := next_comment_id db\<rparr>
      in (c, db\<lparr>comments := comments db @ [c], next_comment_id := Suc (next_comment_id db)\<rparr>))"

text \<open>
  Modelled from the spec: the update of an issue by the controller of
  \<^verbatim>\<open>api/src/controllers/issues.ts\<close>, which is not part of the sources. The entity, which
  already has its id, is mutated in place and saved: the update hook runs and the row with
  that id is replaced.
\<close>

definition save_Issue :: "issue \<Rightarrow> database \<Rightarrow> issue \<times> database" where
  "save_Issue i db =
     (let i' = setDescriptionText i
      in (i', db\<lparr>issues := map (\<lambda>r. if issue_id r = issue_id i' then i' else r) (issues db)\<rparr>))"

text \<open>
  \<^verbatim>\<open>Promise.all\<close> over an array of \<^verbatim>\<open>createEntity\<close> calls: the entities are created
  one after the other, in the order of the array, and come back in that order.
\<close>

fun all_createEntity_User :: "user list \<Rightarrow> database \<Rightarrow> user list \<times> database" where
  "all_createEntity_User [] db = ([], db)"
| "all_createEntity_User (x # xs) db =
     (let (u, db1) = createEntity_User x db;
          (us, db2) = all_createEntity_User xs db1
      in (u # us, db2))"

fun all_createEntity_Issue :: "issue list \<Rightarrow> database \<Rightarrow> issue list \<times> database" where
  "all_createEntity_Issue [] db = ([], db)"
| "all_createEntity_Issue (x # xs) db =
     (let (i, db1) = createEntity_Issue x db;
          (iss, db2) = all_createEntity_Issue xs db1
      in (i # iss, db2))"

fun all_createEntity_Comment :: "comment list \<Rightarrow> database \<Rightarrow> comment list \<times> database" where
  "all_createEntity_Comment [] db = ([], db)"
| "all_createEntity_Comment (x # xs) db =
     (let (c, db1) = createEntity_Comment x db;
          (cs, db2) = all_createEntity_Comment xs db1
      in (c # cs, db2))"

section \<open>The guest account seeder: \<^verbatim>\<open>api/src/database/createGuestAccount.ts\<close>\<close>

text \<open>
  Strings are byte lists: a character outside ASCII is its UTF-8 bytes, \<^verbatim>\<open>\n\<close> is the byte 10.
  \<^verbatim>\<open>users[k]\<close> is \<open>us ! k\<close>; the seeder always passes the three users it has just created.
\<close>

definition seedUsers :: "database \<Rightarrow> user list \<times> database" where
  "seedUsers db =
     all_createEntity_User
       [\<lparr>user_id = 0, user_name = ''Pickle Rick'',
         email = ''rick@jira.guest'',
         avatarUrl = ''https://i.ibb.co/7JM1P2r/picke-rick.jpg'',
         user_projectId = None\<rparr>,
        \<lparr>user_id = 0, user_name = ''Baby Yoda'',
         email = ''yoda@jira.guest'',
         avatarUrl = ''https://i.ibb.co/6n0hLML/baby-yoda.jpg'',
         user_projectId = None\<rparr>,
        \<lparr>user_id = 0, user_name = ''Lord Gaben'',
         email = ''gaben@jira.guest'',
         avatarUrl = ''https://i.ibb.co/6RJ5hq6/gaben.jpg'',
         user_projectId = None\<rparr>] db"

definition seedProject :: "user list \<Rightarrow> database \<Rightarrow> (project \<times> user list) \<times> database" where
  "seedProject us db =
     createEntity_Project
       \<lparr>project_id = 0, project_name = ''singularity 1.0'',
        url = Some ''https://www.atlassian.com/software/jira'',
        project_description = Some
          (''Plan, track, and manage your agile and software development projects in Jira. Customize your workflow, collaborate, and release great software.''),
        category = SOFTWARE\<rparr> us db"

definition seedIssues :: "project \<times> user list \<Rightarrow> database \<Rightarrow> issue list \<times> database" where
  "seedIssues pus db =
     (let p = fst pus; us = snd pus in
      all_createEntity_Issue
       [\<lparr>issue_id = 0,
         title = ''This is an issue of type: Task.'',
         issue_type = TASK, status = BACKLOG, priority = HIGH, listPosition = 1,
         description = Some
         (''<p>Your teams can collaborate in Jira applications by breaking down pieces of work into issues. Issues can represent tasks, software bugs, feature requests or any other type of project work.</p><p><br></p><h3>Jira Software&nbsp;(software projects) issue types:</h3><p><br></p><h1><strong>Bug </strong><span style='' @ [CHR 0x22] @ ''background-color: initial;'' @ [CHR 0x22] @ ''>'' @ [CHR 0xF0, CHR 0x9F, CHR 0x90, CHR 0x9E] @ ''</span></h1><p>A bug is a problem which impairs or prevents the functions of a product.</p><p><br></p><h1><strong>Story </strong><span style='' @ [CHR 0x22] @ ''color: rgb(51, 51, 51);'' @ [CHR 0x22] @ ''>'' @ [CHR 0xF0, CHR 0x9F, CHR 0x93, CHR 0x97] @ ''</span></h1><p>A user story is the smallest unit of work that needs to be done.</p><p><br></p><h1><strong>Task </strong><span style='' @ [CHR 0x22] @ ''color: rgb(51, 51, 51);'' @ [CHR 0x22] @ ''>'' @ [CHR 0xF0, CHR 0x9F, CHR 0x97, CHR 0xB3] @ ''</span></h1><p>A task represents work that needs to be done.</p>''),
         descriptionText = None, estimate = Some 8, timeSpent = Some 4, timeRemaining = None,
         reporterId = user_id (us ! 1), projectId = project_id p, userIds = [user_id (us ! 0)]\<rparr>,
        \<lparr>issue_id = 0,
         title = ''Click on an issue to see what's behind it.'',
         issue_type = TASK, status = BACKLOG, priority = LOW, listPosition = 2,
         description = Some
         (''<h2>Key terms to know</h2><p><br></p><h3>Issues</h3><p>A Jira 'issue' refers to a single work item of any type or size that is tracked from creation to completion.</p>''),
         descriptionText = None, estimate = Some 5, timeSpent = Some 2, timeRemaining = None,
         reporterId = user_id (us ! 2), projectId = project_id p, userIds = [user_id (us ! 0)]\<rparr>,
        \<lparr>issue_id = 0,
         title = ''Try dragging issues to different columns to transition their status.'',
         issue_type = STORY, status = BACKLOG, priority = MEDIUM, listPosition = 3,
         description = Some
         (''<p>An issue's status indicates its current place in the project's workflow.</p>''),
         descriptionText = None, estimate = Some 15, timeSpent = Some 12, timeRemaining = None,
         reporterId = user_id (us ! 1), projectId = project_id p, userIds = []\<rparr>,
        \<lparr>issue_id = 0,
         title = ''You can use rich text with images in issue descriptions.'',
         issue_type = STORY, status = BACKLOG, priority = LOWEST, listPosition = 4,
         description = Some
         (''<h1>Rich text content with emojis</h1>''),
         descriptionText = None, estimate = Some 4, timeSpent = Some 4, timeRemaining = None,
         reporterId = user_id (us ! 0), projectId = project_id p, userIds = [user_id (us ! 2)]\<rparr>,
        \<lparr>issue_id = 0,
         title = ''Each issue can be assigned priority from lowest to highest.'',
         issue_type = TASK, status = SELECTED, priority = HIGHEST, listPosition = 5,
         description = Some
         (''<p>An issue's priority indicates its relative importance.</p>''),
         descriptionText = None, estimate = Some 4, timeSpent = Some 1, timeRemaining = None,
         reporterId = user_id (us ! 2), projectId = project_id p, userIds = []\<rparr>,
        \<lparr>issue_id = 0,
         title = ''Each issue has a single reporter but can have multiple assignees.'',
         issue_type = STORY, status = SELECTED, priority = HIGH, listPosition = 6,
         description = Some
         (''<h2>Try assigning users to this issue.</h2>''),
         descriptionText = None, estimate = Some 6, timeSpent = Some 3, timeRemaining = None,
         reporterId = user_id (us ! 1), projectId = project_id p, userIds = [user_id (us ! 1), user_id (us ! 2)]\<rparr>,
        \<lparr>issue_id = 0,
         title = ''You can track how many hours were spent working on an issue, and how many hours remain.'',
         issue_type = TASK, status = INPROGRESS, priority = LOWEST, listPosition = 7,
         description = Some
         (''<p>Before you start work on an issue, you can set a time estimate.</p>''),
         descriptionText = None, estimate = Some 12, timeSpent = Some 11, timeRemaining = None,
         reporterId = user_id (us ! 0), projectId = project_id p, userIds = []\<rparr>,
        \<lparr>issue_id = 0,
         title = ''Try leaving a comment on this issue.'',
         issue_type = TASK, status = DONE, priority = MEDIUM, listPosition = 7,
         description = Some
         (''<p>Adding comments to an issue is a useful way to record additional detail.</p>''),
         descriptionText = None, estimate = Some 10, timeSpent = Some 2, timeRemaining = None,
         reporterId = user_id (us ! 0), projectId = project_id p, userIds = [user_id (us ! 1)]\<rparr>] db)"

definition seedComments :: "issue list \<Rightarrow> user list \<Rightarrow> database \<Rightarrow> comment list \<times> database" where
  "seedComments iss us db =
     all_createEntity_Comment
       [\<lparr>comment_id = 0,
         body = ''An old silent pond...'' @ [CHR 0x0A] @ ''A frog jumps into the pond,'' @ [CHR 0x0A] @ ''splash! Silence again.'',
         userId = user_id (us ! 2), issueId = issue_id (iss ! 0)\<rparr>,
        \<lparr>comment_id = 0,
         body = ''Autumn moonlight-'' @ [CHR 0x0A] @ ''a worm digs silently'' @ [CHR 0x0A] @ ''into the chestnut.'',
         userId = user_id (us ! 2), issueId = issue_id (iss ! 1)\<rparr>,
        \<lparr>comment_id = 0,
         body = ''In the twilight rain'' @ [CHR 0x0A] @ ''these brilliant-hued hibiscus -'' @ [CHR 0x0A] @ ''A lovely sunset.'',
         userId = user_id (us ! 2), issueId = issue_id (iss ! 2)\<rparr>,
        \<lparr>comment_id = 0,
         body = ''A summer river being crossed'' @ [CHR 0x0A] @ ''how pleasing'' @ [CHR 0x0A] @ ''with sandals in my hands!'',
         userId = user_id (us ! 2), issueId = issue_id (iss ! 3)\<rparr>,
        \<lparr>comment_id = 0,
         body = ''Light of the moon'' @ [CHR 0x0A] @ ''Moves west, flowers' shadows'' @ [CHR 0x0A] @ ''Creep eastward.'',
         userId = user_id (us ! 2), issueId = issue_id (iss ! 4)\<rparr>,
        \<lparr>comment_id = 0,
         body = ''In the moonlight,'' @ [CHR 0x0A] @ ''The color and scent of the wisteria'' @ [CHR 0x0A] @ ''Seems far away.'',
         userId = user_id (us ! 2), issueId = issue_id (iss ! 5)\<rparr>,
        \<lparr>comment_id = 0,
         body = ''O snail'' @ [CHR 0x0A] @ ''Climb Mount Fuji,'' @ [CHR 0x0A] @ ''But slowly, slowly!'',
         userId = user_id (us ! 2), issueId = issue_id (iss ! 6)\<rparr>,
        \<lparr>comment_id = 0,
         body = ''Everything I touch'' @ [CHR 0x0A] @ ''with tenderness, alas,'' @ [CHR 0x0A] @ ''pricks like a bramble.'',
         userId = user_id (us ! 2), issueId = issue_id (iss ! 7)\<rparr>] db"

definition createGuestAccount :: "database \<Rightarrow> user \<times> database" where
  "createGuestAccount db0 =
     (let (us, db1) = seedUsers db0;
          (pus, db2) = seedProject us db1;
          (iss, db3) = seedIssues pus db2;
          (cs, db4) = seedComments iss (snd pus) db3
      in (us ! 2, db4))"

section \<open>Listing issues: the query of \<^verbatim>\<open>api/src/controllers/issues.ts\<close>\<close>

text \<open>
  PostgreSQL's \<^verbatim>\<open>LIKE\<close>: in the pattern \<^verbatim>\<open>%\<close> stands for any run of characters,
  \<^verbatim>\<open>_\<close> for any one character, and a backslash makes the character after it literal.
  A pattern that ends in a lone backslash is refused by the database; here it matches nothing.
\<close>

fun like :: "string \<Rightarrow> string \<Rightarrow> bool" where
  "like [] [] = True"
| "like [] (c # cs) = False"
| "like (p # ps) [] = (p = CHR ''%'' \<and> like ps [])"
| "like (p # ps) (c # cs) =
     (if p = CHR ''%'' then like ps (c # cs) \<or> like (p # ps) cs
      else if p = CHR ''_'' then like ps cs
      else if p = CHR 0x5C then (case ps of [] \<Rightarrow> False | q # qs \<Rightarrow> c = q \<and> like qs cs)
      else c = p \<and> like ps cs)"

text \<open>
  \<^verbatim>\<open>ILIKE\<close> folds the case of both sides before matching. The folding here is that of
  the ASCII letters.
\<close>

definition lower_char :: "char \<Rightarrow> char" where
  "lower_char c =
     (let n = (of_char c :: nat) in if 65 \<le> n \<and> n \<le> 90 then char_of (n + 32) else c)"

definition ilike :: "string \<Rightarrow> string \<Rightarrow> bool" where
  "ilike pattern text = like (map lower_char pattern) (map lower_char text)"

text \<open>
  The query builder: \<^verbatim>\<open>where('issue.projectId = :projectId')\<close>, then
  \<^verbatim>\<open>andWhere('issue.title ILIKE :searchTerm', { searchTerm: `%${term}%` })\<close>, then
  \<^verbatim>\<open>getMany()\<close>. The second condition is always there: an absent term is JavaScript's
  \<^verbatim>\<open>undefined\<close>, which the template literal renders as the text \<^verbatim>\<open>undefined\<close>.
\<close>

definition listIssues :: "nat \<Rightarrow> string option \<Rightarrow> issue list \<Rightarrow> issue list" where
  "listIssues pid searchTerm tbl =
     filter (\<lambda>i. projectId i = pid \<and>
                 ilike (''%'' @ (case searchTerm of None \<Rightarrow> ''undefined'' | Some term \<Rightarrow> term) @ ''%'')
                   (title i)) tbl"


text \<open>The reading of the spec's search clause: the term occurs in the text, letters compared without case.\<close>

definition contains_ci :: "string \<Rightarrow> string \<Rightarrow> bool" where
  "contains_ci text term = sublist (map lower_char term) (map lower_char text)"

definition wildcard_free :: "string \<Rightarrow> bool" where
  "wildcard_free term = (CHR ''%'' \<notin> set term \<and> CHR ''_'' \<notin> set term \<and> CHR 0x5C \<notin> set term)"

section \<open>Removing an issue\<close>

text \<open>
  \<^verbatim>\<open>Comment.issue\<close> is declared with \<^verbatim>\<open>onDelete: 'CASCADE'\<close>: the database deletes, with
  the row of an issue, every comment whose \<^verbatim>\<open>issueId\<close> names it. The removal is the
  deletion of the row with the given id, as \<^verbatim>\<open>issue.remove()\<close> issues it.
\<close>

definition remove_Issue :: "nat \<Rightarrow> database \<Rightarrow> database" where
  "remove_Issue iid db =
     db\<lparr>issues := filter (\<lambda>i. issue_id i \<noteq> iid) (issues db),
        comments := filter (\<lambda>c. issueId c \<noteq> iid) (comments db)\<rparr>"

text \<open>Every comment names exactly one stored issue and exactly one stored user.\<close>

definition comment_owned :: "database \<Rightarrow> comment \<Rightarrow> bool" where
  "comment_owned db c =
     (length (filter (\<lambda>i. issue_id i = issueId c) (issues db)) = 1 \<and>
      length (filter (\<lambda>u. user_id u = userId c) (users db)) = 1)"

section \<open>List positions\<close>



section \<open>Double arithmetic\<close>

text \<open>
  A JavaScript number is an IEEE 754 double: 53 significant bits, binary exponents from
  \<open>-1022\<close> to \<open>1023\<close>, results rounded to the nearest double, ties to the even
  significand. \<open>exponent\<close> is the binary exponent of a real number, kept within that range
  (below \<open>2 powi - 1022\<close> the doubles are the multiples of \<open>2 powi - 1074\<close>); \<open>ulp\<close> is
  the distance between the doubles at that exponent. A result beyond the largest double,
  which the code turns into \<^verbatim>\<open>Infinity\<close>, is outside the model.
\<close>

fun exp_down :: "nat \<Rightarrow> real \<Rightarrow> int" where
  "exp_down 0 x = 0"
| "exp_down (Suc n) x = (if 2 \<le> x then exp_down n (x / 2) + 1 else 0)"

fun exp_up :: "nat \<Rightarrow> real \<Rightarrow> int" where
  "exp_up 0 x = 0"
| "exp_up (Suc n) x = (if x < 1 then exp_up n (2 * x) - 1 else 0)"

definition exponent :: "real \<Rightarrow> int" where
  "exponent x = (if 1 \<le> \<bar>x\<bar> then exp_down 1023 \<bar>x\<bar> else exp_up 1022 \<bar>x\<bar>)"

definition ulp :: "real \<Rightarrow> real" where
  "ulp x = 2 powi (exponent x - 52)"

definition round_half_even :: "real \<Rightarrow> int" where
  "round_half_even y =
     (let f = \<lfloor>y\<rfloor>; d = y - of_int f
      in if d < 1 / 2 then f else if 1 / 2 < d then f + 1 else if even f then f else f + 1)"

definition double_round :: "real \<Rightarrow> real" where
  "double_round x = of_int (round_half_even (x / ulp x)) * ulp x"

definition is_double :: "real \<Rightarrow> bool" where
  "is_double x = (double_round x = x)"

text \<open>\<^verbatim>\<open>(x + y) / 2\<close> on doubles: the sum is rounded, then the quotient is.\<close>

definition double_midpoint :: "real \<Rightarrow> real \<Rightarrow> real" where
  "double_midpoint x y = double_round (double_round (x + y) / 2)"

section \<open>The Position Allocator\<close>

datatype allocation = Key real | Renumber | Violation

text \<open>
  Modelled from the spec: \<^verbatim>\<open>allocate(beforeKey, afterKey)\<close>, which is not part of the
  sources. With no neighbour the key is \<^verbatim>\<open>1\<close>; with only a neighbour after, the key is
  that neighbour's key minus one; between two neighbours it is the arithmetic midpoint
  \<^verbatim>\<open>(beforeKey + afterKey) / 2\<close>, computed as the code computes it: the sum is rounded to
  a double, then the half is. When the two keys are equal, or the computed midpoint equals
  one of them, the allocator asks for the column to be renumbered. Two keys with
  \<^verbatim>\<open>before > after\<close> are a programming error. The spec gives no rule for the key after
  the last issue of a column: that rule is the parameter \<open>tailKey\<close>. The spec names the
  loss of precision for the midpoint only; the subtraction of the head rule is exact here.
\<close>

fun allocate :: "(real \<Rightarrow> real) \<Rightarrow> real option \<Rightarrow> real option \<Rightarrow> allocation" where
  "allocate tailKey None None = Key 1"
| "allocate tailKey None (Some afterKey) = Key (afterKey - 1)"
| "allocate tailKey (Some beforeKey) None = Key (tailKey beforeKey)"
| "allocate tailKey (Some beforeKey) (Some afterKey) =
     (if afterKey < beforeKey then Violation
      else let midpoint = double_midpoint beforeKey afterKey
           in if beforeKey = afterKey \<or> midpoint = beforeKey \<or> midpoint = afterKey
              then Renumber else Key midpoint)"

section \<open>The Reorder Endpoint Handler\<close>

datatype error = NotFound | InvalidInput | ConcurrencyConflict | AssertionFailed

text \<open>
  Modelled from the spec: \<^verbatim>\<open>reorder(issueId, newStatus, destinationIndex)\<close>, which is not
  part of the sources. The destination column is the ordered list of the issues of the
  moved issue's project with the new status, the moved issue left out; ties keep the order
  of the table.
\<close>

definition column :: "nat \<Rightarrow> IssueStatus \<Rightarrow> nat \<Rightarrow> issue list \<Rightarrow> issue list" where
  "column pid st moved tbl =
     sort_key listPosition
       (filter (\<lambda>i. projectId i = pid \<and> status i = st \<and> issue_id i \<noteq> moved) tbl)"

text \<open>The neighbour keys around an index \<open>k \<le> length col\<close>: none before the start, none after the end.\<close>

definition beforeKey :: "issue list \<Rightarrow> nat \<Rightarrow> real option" where
  "beforeKey col k = (if k = 0 then None else Some (listPosition (col ! (k - 1))))"

definition afterKey :: "issue list \<Rightarrow> nat \<Rightarrow> real option" where
  "afterKey col k = (if k < length col then Some (listPosition (col ! k)) else None)"

text \<open>
  The renumbering pass: the issues named in \<open>order\<close> receive the consecutive integers
  \<^verbatim>\<open>1, 2, ...\<close> in that order.
\<close>

fun index_of :: "nat \<Rightarrow> nat list \<Rightarrow> nat option" where
  "index_of x [] = None"
| "index_of x (y # ys) = (if x = y then Some 0 else map_option Suc (index_of x ys))"

definition renumber :: "nat list \<Rightarrow> issue list \<Rightarrow> issue list" where
  "renumber order tbl =
     map (\<lambda>i. case index_of (issue_id i) order of
                 None \<Rightarrow> i
               | Some k \<Rightarrow> i\<lparr>listPosition := of_nat (k + 1)\<rparr>) tbl"

text \<open>
  The handler: the issue is looked up (not found is an error), the index is checked against
  the destination column (out of range is an error), then the allocator is called. A key is
  written to the moved issue together with the new status. On a request to renumber, the
  moved issue takes its place at the index and the destination column is renumbered.
\<close>

definition reorder ::
  "(real \<Rightarrow> real) \<Rightarrow> nat \<Rightarrow> IssueStatus \<Rightarrow> int \<Rightarrow> issue list \<Rightarrow> error + issue list" where
  "reorder tailKey issueId' newStatus destinationIndex tbl =
     (case find (\<lambda>i. issue_id i = issueId') tbl of
        None \<Rightarrow> Inl NotFound
      | Some moved \<Rightarrow>
          let col = column (projectId moved) newStatus issueId' tbl in
          if destinationIndex < 0 \<or> int (length col) < destinationIndex then Inl InvalidInput
          else
            let k = nat destinationIndex in
            (case allocate tailKey (beforeKey col k) (afterKey col k) of
               Violation \<Rightarrow> Inl AssertionFailed
             | Key key \<Rightarrow>
                 Inr (map (\<lambda>i. if issue_id i = issueId'
                                then i\<lparr>status := newStatus, listPosition := key\<rparr> else i) tbl)
             | Renumber \<Rightarrow>
                 Inr (renumber
                        (map issue_id (take k col) @ [issueId'] @ map issue_id (drop k col))
                        (map (\<lambda>i. if issue_id i = issueId'
                                   then i\<lparr>status := newStatus\<rparr> else i) tbl))))"

text \<open>
  The handler on the database: an error leaves the database as it was; otherwise the issue
  table is replaced and the updated issue is returned.
\<close>

definition reorder_db ::
  "(real \<Rightarrow> real) \<Rightarrow> nat \<Rightarrow> IssueStatus \<Rightarrow> int \<Rightarrow> database \<Rightarrow> (error + issue option) \<times> database" where
  "reorder_db tailKey issueId' newStatus destinationIndex db =
     (case reorder tailKey issueId' newStatus destinationIndex (issues db) of
        Inl e \<Rightarrow> (Inl e, db)
      | Inr tbl \<Rightarrow> (Inr (find (\<lambda>i. issue_id i = issueId') tbl), db\<lparr>issues := tbl\<rparr>))"

section \<open>Sample rows\<close>

text \<open>Small rows for concrete instances: an issue, a comment and a user with the fields that matter set.\<close>

definition sample_issue ::
  "nat \<Rightarrow> nat \<Rightarrow> IssueStatus \<Rightarrow> real \<Rightarrow> string \<Rightarrow> string option \<Rightarrow> string option \<Rightarrow> issue" where
  "sample_issue iid pid st pos ttl html txt =
     \<lparr>issue_id = iid, title = ttl, issue_type = TASK, status = st, priority = MEDIUM,
      listPosition = pos, description = html, descriptionText = txt, estimate = None,
      timeSpent = None, timeRemaining = None, reporterId = 1, projectId = pid, userIds = []\<rparr>"

definition sample_comment :: "nat \<Rightarrow> nat \<Rightarrow> nat \<Rightarrow> comment" where
  "sample_comment cid uid iid = \<lparr>comment_id = cid, body = ''text'', userId = uid, issueId = iid\<rparr>"

definition sample_user :: "nat \<Rightarrow> user" where
  "sample_user uid =
     \<lparr>user_id = uid, user_name = ''name'', email = ''name@jira.guest'', avatarUrl = [],
      user_projectId = Some 1\<rparr>"

text \<open>The spec's scenario: the backlog of project 1 holds the issues A, B, C at the keys 1, 2, 3.\<close>

definition sample_board :: "issue list" where
  "sample_board =
     [sample_issue 1 1 BACKLOG 1 ''A'' None None,
      sample_issue 2 1 BACKLOG 2 ''B'' None None,
      sample_issue 3 1 BACKLOG 3 ''C'' None None]"

text \<open>A small database: one user, the three issues of the scenario, three comments.\<close>

definition sample_database :: database where
  "sample_database =
     empty_database\<lparr>users := [sample_user 1], issues := sample_board,
       comments := [sample_comment 1 1 1, sample_comment 2 1 2, sample_comment 3 1 1]\<rparr>"

section \<open>The seeder\<close>

text \<open>What a batch of \<^verbatim>\<open>createEntity\<close> calls leaves in the database.\<close>


lemma all_createEntity_User_snd:
  "snd (all_createEntity_User xs db) =
     db\<lparr>users := users db @ fst (all_createEntity_User xs db),
        next_user_id := next_user_id db + length xs\<rparr>"
  by (induction xs arbitrary: db) (simp_all add: createEntity_User_def Let_def split_def)

lemma all_createEntity_User_fields:
  "map email (fst (all_createEntity_User xs db)) = map email xs \<and>
   map user_name (fst (all_createEntity_User xs db)) = map user_name xs \<and>
   map user_id (fst (all_createEntity_User xs db)) = map (\<lambda>k. next_user_id db + k) [0..<length xs]"
proof (induction xs arbitrary: db)
  case Nil
  show ?case by simp
next
  case (Cons x xs)
  have shift: "map (\<lambda>k. Suc (next_user_id db + k)) [0..<length xs] =
               map (\<lambda>k. next_user_id db + k) (map Suc [0..<length xs])"
    by simp
  show ?case
    using Cons.IH [of "snd (createEntity_User x db)"]
    by (simp add: createEntity_User_def Let_def split_def upt_conv_Cons map_Suc_upt [symmetric] del: upt_Suc)
qed

lemma all_createEntity_Issue_snd:
  "snd (all_createEntity_Issue xs db) =
     db\<lparr>issues := issues db @ fst (all_createEntity_Issue xs db),
        next_issue_id := next_issue_id db + length xs\<rparr>"
  by (induction xs arbitrary: db) (simp_all add: createEntity_Issue_def Let_def split_def)

lemma setDescriptionText_keeps:
  "status (setDescriptionText i) = status i \<and> listPosition (setDescriptionText i) = listPosition i \<and>
   projectId (setDescriptionText i) = projectId i \<and> title (setDescriptionText i) = title i \<and>
   description (setDescriptionText i) = description i \<and> issue_id (setDescriptionText i) = issue_id i"
  by (simp add: setDescriptionText_def split: option.splits)

lemma all_createEntity_Issue_fields:
  "map status (fst (all_createEntity_Issue xs db)) = map status xs \<and>
   map listPosition (fst (all_createEntity_Issue xs db)) = map listPosition xs \<and>
   map projectId (fst (all_createEntity_Issue xs db)) = map projectId xs \<and>
   map title (fst (all_createEntity_Issue xs db)) = map title xs"
  by (induction xs arbitrary: db)
     (simp_all add: createEntity_Issue_def Let_def split_def setDescriptionText_keeps)

lemma all_createEntity_Comment_snd:
  "snd (all_createEntity_Comment xs db) =
     db\<lparr>comments := comments db @ fst (all_createEntity_Comment xs db),
        next_comment_id := next_comment_id db + length xs\<rparr>"
  by (induction xs arbitrary: db) (simp_all add: createEntity_Comment_def Let_def split_def)

lemma all_createEntity_length:
  "length (fst (all_createEntity_User us db)) = length us"
  "length (fst (all_createEntity_Issue xs db)) = length xs"
  "length (fst (all_createEntity_Comment cs db)) = length cs"
  by (induction us arbitrary: db, simp_all add: split_def Let_def)
     (induction xs arbitrary: db, simp_all add: split_def Let_def,
      induction cs arbitrary: db, simp_all add: split_def Let_def)


lemma seedUsers_result:
  "length (fst (seedUsers db)) = 3 \<and>
   map email (fst (seedUsers db)) = [''rick@jira.guest'', ''yoda@jira.guest'', ''gaben@jira.guest''] \<and>
   snd (seedUsers db) = db\<lparr>users := users db @ fst (seedUsers db), next_user_id := next_user_id db + 3\<rparr>"
  unfolding seedUsers_def
  by (simp add: all_createEntity_User_snd all_createEntity_User_fields all_createEntity_length
           del: all_createEntity_User.simps)

lemma seedProject_result:
  "length (users (snd (seedProject us db))) = length (users db) \<and>
   map email (users (snd (seedProject us db))) = map email (users db) \<and>
   length (projects (snd (seedProject us db))) = length (projects db) + 1 \<and>
   issues (snd (seedProject us db)) = issues db \<and>
   comments (snd (seedProject us db)) = comments db"
  by (simp add: seedProject_def createEntity_Project_def Let_def del: append.simps)

lemma seedIssues_result:
  "map (\<lambda>i. (status i, listPosition i)) (fst (seedIssues pus db)) =
     [(BACKLOG, 1), (BACKLOG, 2), (BACKLOG, 3), (BACKLOG, 4),
      (SELECTED, 5), (SELECTED, 6), (INPROGRESS, 7), (DONE, 7)] \<and>
   snd (seedIssues pus db) =
     db\<lparr>issues := issues db @ fst (seedIssues pus db), next_issue_id := next_issue_id db + 8\<rparr>"
proof -
  have pair: "map (\<lambda>i. (status i, listPosition i)) xs = zip (map status xs) (map listPosition xs)"
    for xs :: "issue list"
    by (induction xs) simp_all
  show ?thesis
    unfolding seedIssues_def Let_def pair
    by (simp add: all_createEntity_Issue_snd all_createEntity_Issue_fields
             del: all_createEntity_Issue.simps append.simps)
qed

lemma seedComments_result:
  "length (fst (seedComments iss us db)) = 8 \<and>
   snd (seedComments iss us db) =
     db\<lparr>comments := comments db @ fst (seedComments iss us db),
        next_comment_id := next_comment_id db + 8\<rparr>"
  unfolding seedComments_def
  by (simp add: all_createEntity_Comment_snd all_createEntity_length
           del: all_createEntity_Comment.simps append.simps)

text \<open>
  C10: on any database, \<^verbatim>\<open>createGuestAccount\<close> adds exactly three users, one project,
  eight issues and eight comments, and returns the third seeded user, whose email is
  \<^verbatim>\<open>gaben@jira.guest\<close>. The seeded issues hold the positions 1, 2, 3, 4 in the backlog,
  5, 6 in selected, 7 in progress and 7 in done: no two of them with the same status have the
  same list position.
\<close>

theorem createGuestAccount_seeds:
  "(case createGuestAccount db of
      (guest, db') \<Rightarrow>
        length (users db') = length (users db) + 3 \<and>
        length (projects db') = length (projects db) + 1 \<and>
        length (issues db') = length (issues db) + 8 \<and>
        length (comments db') = length (comments db) + 8 \<and>
        map email (drop (length (users db)) (users db')) =
          [''rick@jira.guest'', ''yoda@jira.guest'', ''gaben@jira.guest''] \<and>
        email guest = ''gaben@jira.guest'' \<and>
        map (\<lambda>i. (status i, listPosition i)) (drop (length (issues db)) (issues db')) =
          [(BACKLOG, 1), (BACKLOG, 2), (BACKLOG, 3), (BACKLOG, 4),
           (SELECTED, 5), (SELECTED, 6), (INPROGRESS, 7), (DONE, 7)] \<and>
        distinct (map (\<lambda>i. (status i, listPosition i)) (drop (length (issues db)) (issues db'))))"
proof -
  obtain us db1 where s1: "seedUsers db = (us, db1)" by (cases "seedUsers db")
  obtain pus db2 where s2: "seedProject us db1 = (pus, db2)" by (cases "seedProject us db1")
  obtain iss db3 where s3: "seedIssues pus db2 = (iss, db3)" by (cases "seedIssues pus db2")
  obtain cs db4 where s4: "seedComments iss (snd pus) db3 = (cs, db4)"
    by (cases "seedComments iss (snd pus) db3")
  have r: "createGuestAccount db = (us ! 2, db4)"
    by (simp add: createGuestAccount_def s1 s2 s3 s4)
  from seedUsers_result [of db] s1
  have u: "length us = 3"
    "map email us = [''rick@jira.guest'', ''yoda@jira.guest'', ''gaben@jira.guest'']"
    "db1 = db\<lparr>users := users db @ us, next_user_id := next_user_id db + 3\<rparr>"
    by simp_all
  from seedProject_result [of us db1] s2
  have p: "length (users db2) = length (users db1)" "map email (users db2) = map email (users db1)"
    "length (projects db2) = length (projects db1) + 1" "issues db2 = issues db1"
    "comments db2 = comments db1"
    by simp_all
  from seedIssues_result [of pus db2] s3
  have i: "map (\<lambda>i. (status i, listPosition i)) iss =
     [(BACKLOG, 1), (BACKLOG, 2), (BACKLOG, 3), (BACKLOG, 4),
      (SELECTED, 5), (SELECTED, 6), (INPROGRESS, 7), (DONE, 7)]"
    "db3 = db2\<lparr>issues := issues db2 @ iss, next_issue_id := next_issue_id db2 + 8\<rparr>"
    by simp_all
  from seedComments_result [of iss "snd pus" db3] s4
  have c: "length cs = 8"
    "db4 = db3\<lparr>comments := comments db3 @ cs, next_comment_id := next_comment_id db3 + 8\<rparr>"
    by simp_all
  have li: "length iss = 8"
    using arg_cong [OF i(1), of length] by simp
  have e2: "email (us ! 2) = ''gaben@jira.guest''"
    using arg_cong [OF u(2), of "\<lambda>xs. xs ! 2"] u(1) by simp
  have t: "users db4 = users db2" "projects db4 = projects db2"
    "issues db4 = issues db @ iss" "comments db4 = comments db @ cs"
    by (simp_all add: c(2) i(2) p u(3))
  have "map email (drop (length (users db)) (users db2)) =
        drop (length (users db)) (map email (users db2))"
    by (simp add: drop_map)
  also have "\<dots> = drop (length (users db)) (map email (users db1))"
    by (simp only: p(2))
  also have "\<dots> = map email us"
    by (simp add: u(3))
  finally have ue: "map email (drop (length (users db)) (users db2)) = map email us" .
  have lens: "length (users db2) = length (users db) + 3"
    "length (projects db2) = length (projects db) + 1"
    by (simp_all add: p u)
  show ?thesis
    unfolding r
    by (simp add: t lens ue u(2) i(1) c(1) li e2)
qed

section \<open>Rounding to a double\<close>

text \<open>
  The binary exponent brackets its argument, rounding to the nearest double never passes a
  double, and the double of a double is a double.
\<close>


lemma powi_Suc: "(2::real) powi (e + 1) = 2 * 2 powi e"
  by (simp add: power_int_add_1)

lemma powi_pred: "(2::real) powi (e - 1) = 2 powi e / 2"
  using powi_Suc [of "e - 1"] by simp

lemma exp_down_bounds:
  "1 \<le> x \<Longrightarrow>
     0 \<le> exp_down n x \<and> exp_down n x \<le> int n \<and> 2 powi (exp_down n x) \<le> x \<and>
     (exp_down n x < int n \<longrightarrow> x < 2 powi (exp_down n x + 1))"
proof (induction n arbitrary: x)
  case 0
  then show ?case by simp
next
  case (Suc n)
  show ?case
  proof (cases "2 \<le> x")
    case True
    then have "1 \<le> x / 2" by simp
    from Suc.IH [OF this] True show ?thesis
      using powi_Suc [of "exp_down n (x / 2)"] powi_Suc [of "exp_down n (x / 2) + 1"]
      by (auto simp add: add.commute [of 2] add.assoc)
  next
    case False
    with Suc.prems show ?thesis by simp
  qed
qed

lemma exp_up_ge_1: "1 \<le> x \<Longrightarrow> exp_up n x = 0"
  by (cases n) simp_all

lemma exp_up_bounds:
  "0 \<le> x \<Longrightarrow> x < 1 \<Longrightarrow>
     - int n \<le> exp_up n x \<and> exp_up n x \<le> 0 \<and> x < 2 powi (exp_up n x + 1) \<and>
     (- int n < exp_up n x \<longrightarrow> 2 powi (exp_up n x) \<le> x)"
proof (induction n arbitrary: x)
  case 0
  then show ?case by simp
next
  case (Suc n)
  show ?case
  proof (cases "2 * x < 1")
    case True
    from Suc.IH [of "2 * x"] Suc.prems True show ?thesis
      using powi_Suc [of "exp_up n (2 * x)"]
      by (auto simp add: powi_pred)
  next
    case False
    then have "exp_up n (2 * x) = 0" by (simp add: exp_up_ge_1)
    with Suc.prems False show ?thesis by (simp add: powi_pred)
  qed
qed

lemma exponent_range: "- 1022 \<le> exponent x \<and> exponent x \<le> 1023"
proof (cases "1 \<le> \<bar>x\<bar>")
  case True
  from exp_down_bounds [OF True, of 1023] True show ?thesis by (simp add: exponent_def)
next
  case False
  then have "0 \<le> \<bar>x\<bar>" "\<bar>x\<bar> < 1" by simp_all
  from exp_up_bounds [OF this, of 1022] False show ?thesis by (simp add: exponent_def)
qed

lemma exponent_lower: "- 1022 < exponent x \<Longrightarrow> 2 powi (exponent x) \<le> \<bar>x\<bar>"
proof (cases "1 \<le> \<bar>x\<bar>")
  case True
  from exp_down_bounds [OF True, of 1023] True show ?thesis by (simp add: exponent_def)
next
  case False
  assume l: "- 1022 < exponent x"
  from False have "0 \<le> \<bar>x\<bar>" "\<bar>x\<bar> < 1" by simp_all
  from exp_up_bounds [OF this, of 1022] False l show ?thesis by (simp add: exponent_def)
qed

lemma exponent_upper: "exponent x < 1023 \<Longrightarrow> \<bar>x\<bar> < 2 powi (exponent x + 1)"
proof (cases "1 \<le> \<bar>x\<bar>")
  case True
  assume u: "exponent x < 1023"
  from exp_down_bounds [OF True, of 1023] True u show ?thesis by (simp add: exponent_def)
next
  case False
  then have "0 \<le> \<bar>x\<bar>" "\<bar>x\<bar> < 1" by simp_all
  from exp_up_bounds [OF this, of 1022] False show ?thesis by (simp add: exponent_def)
qed

lemma exponent_mono:
  assumes "\<bar>x\<bar> \<le> \<bar>y\<bar>"
  shows "exponent x \<le> exponent y"
proof (rule ccontr)
  assume "\<not> exponent x \<le> exponent y"
  then have l: "exponent y < exponent x" by simp
  with exponent_range [of y] have "- 1022 < exponent x" by linarith
  then have a: "2 powi (exponent x) \<le> \<bar>x\<bar>" by (rule exponent_lower)
  from l exponent_range [of x] have "exponent y < 1023" by linarith
  then have b: "\<bar>y\<bar> < 2 powi (exponent y + 1)" by (rule exponent_upper)
  from l have "(2::real) powi (exponent y + 1) \<le> 2 powi (exponent x)"
    by (intro power_int_increasing) simp_all
  with a b assms show False by linarith
qed


lemma round_half_even_int: "round_half_even (of_int k) = k"
  by (simp add: round_half_even_def)

lemma round_half_even_le:
  assumes "y \<le> of_int k"
  shows "round_half_even y \<le> k"
proof (cases "y = of_int k")
  case True
  then show ?thesis by (simp add: round_half_even_int)
next
  case False
  with assms have "y < of_int k" by simp
  then have "\<lfloor>y\<rfloor> < k" by (simp add: floor_less_iff)
  moreover have "round_half_even y \<le> \<lfloor>y\<rfloor> + 1"
    by (simp add: round_half_even_def Let_def)
  ultimately show ?thesis by linarith
qed

lemma round_half_even_ge:
  assumes "of_int k \<le> y"
  shows "k \<le> round_half_even y"
proof -
  from assms have "k \<le> \<lfloor>y\<rfloor>" by (simp add: le_floor_iff)
  moreover have "\<lfloor>y\<rfloor> \<le> round_half_even y"
    by (simp add: round_half_even_def Let_def)
  ultimately show ?thesis by linarith
qed

lemma ulp_pos: "0 < ulp x"
  by (simp add: ulp_def)

lemma double_round_multiple:
  assumes "d = of_int k * ulp x"
  shows "x \<le> d \<Longrightarrow> double_round x \<le> d" and "d \<le> x \<Longrightarrow> d \<le> double_round x"
proof -
  have u: "0 < ulp x" by (rule ulp_pos)
  have dk: "d / ulp x = of_int k" using assms u by simp
  {
    assume "x \<le> d"
    then have "x / ulp x \<le> of_int k" using u dk by (simp add: divide_right_mono flip: dk)
    then have "round_half_even (x / ulp x) \<le> k" by (rule round_half_even_le)
    then have "of_int (round_half_even (x / ulp x)) * ulp x \<le> of_int k * ulp x"
      using u by simp
    then show "double_round x \<le> d" by (simp add: double_round_def assms)
  }
  {
    assume "d \<le> x"
    then have "of_int k \<le> x / ulp x" using u dk by (simp add: divide_right_mono flip: dk)
    then have "k \<le> round_half_even (x / ulp x)" by (rule round_half_even_ge)
    then have "of_int k * ulp x \<le> of_int (round_half_even (x / ulp x)) * ulp x"
      using u by simp
    then show "d \<le> double_round x" by (simp add: double_round_def assms)
  }
qed

lemma is_double_multiple: "is_double d \<longleftrightarrow> (\<exists>k. d = of_int k * ulp d)"
proof
  assume "is_double d"
  then have "d = of_int (round_half_even (d / ulp d)) * ulp d"
    by (simp add: is_double_def double_round_def)
  then show "\<exists>k. d = of_int k * ulp d" ..
next
  assume "\<exists>k. d = of_int k * ulp d"
  then obtain k where k: "d = of_int k * ulp d" ..
  from double_round_multiple [OF k] have "double_round d = d" by (simp add: order_antisym)
  then show "is_double d" by (simp add: is_double_def)
qed

lemma ulp_scale:
  assumes "exponent x \<le> exponent d"
  shows "ulp d = of_int (2 ^ nat (exponent d - exponent x)) * ulp x"
proof -
  define n where "n = nat (exponent d - exponent x)"
  have "exponent d - 52 = (exponent x - 52) + int n"
    using assms by (simp add: n_def)
  then have "ulp d = 2 powi ((exponent x - 52) + int n)"
    by (simp only: ulp_def)
  also have "\<dots> = 2 powi (exponent x - 52) * 2 powi int n"
    by (rule power_int_add) simp
  also have "\<dots> = of_int (2 ^ n) * ulp x"
    by (simp add: ulp_def)
  finally show ?thesis by (simp only: n_def)
qed

lemma double_on_finer_grid:
  assumes "is_double d" "exponent x \<le> exponent d"
  shows "\<exists>j. d = of_int j * ulp x"
proof -
  from assms(1) obtain k where k: "d = of_int k * ulp d"
    unfolding is_double_multiple ..
  have "d = of_int (k * 2 ^ nat (exponent d - exponent x)) * ulp x"
    by (subst k, subst ulp_scale [OF assms(2)]) simp
  then show ?thesis ..
qed

lemma binade_start: "2 powi (exponent x) = of_int (2 ^ 52) * ulp x"
proof -
  have "(2::real) powi (exponent x) = 2 powi ((exponent x - 52) + 52)" by simp
  also have "\<dots> = 2 powi (exponent x - 52) * 2 powi 52"
    by (rule power_int_add) simp
  finally show ?thesis by (simp add: ulp_def)
qed

lemma exponent_gap:
  assumes "exponent d < exponent x"
  shows "\<bar>d\<bar> < 2 powi (exponent x)" and "2 powi (exponent x) \<le> \<bar>x\<bar>"
proof -
  from assms exponent_range [of x] have "exponent d < 1023" by linarith
  then have "\<bar>d\<bar> < 2 powi (exponent d + 1)" by (rule exponent_upper)
  moreover from assms have "(2::real) powi (exponent d + 1) \<le> 2 powi (exponent x)"
    by (intro power_int_increasing) simp_all
  ultimately show "\<bar>d\<bar> < 2 powi (exponent x)" by linarith
  from assms exponent_range [of d] have "- 1022 < exponent x" by linarith
  then show "2 powi (exponent x) \<le> \<bar>x\<bar>" by (rule exponent_lower)
qed

lemma double_round_le:
  assumes "is_double d" "x \<le> d"
  shows "double_round x \<le> d"
proof (cases "exponent x \<le> exponent d")
  case True
  from double_on_finer_grid [OF assms(1) True] obtain j where "d = of_int j * ulp x" ..
  from double_round_multiple(1) [OF this assms(2)] show ?thesis .
next
  case False
  then have l: "exponent d < exponent x" by simp
  note g = exponent_gap [OF l]
  from g assms(2) have "x \<le> - (2 powi (exponent x))" by linarith
  moreover have "- (2 powi (exponent x)) = of_int (- (2 ^ 52)) * ulp x"
    by (simp add: binade_start)
  ultimately have "double_round x \<le> - (2 powi (exponent x))"
    using double_round_multiple(1) [of "- (2 powi (exponent x))" "- (2 ^ 52)" x] by simp
  with g show ?thesis by linarith
qed

lemma double_round_ge:
  assumes "is_double d" "d \<le> x"
  shows "d \<le> double_round x"
proof (cases "exponent x \<le> exponent d")
  case True
  from double_on_finer_grid [OF assms(1) True] obtain j where "d = of_int j * ulp x" ..
  from double_round_multiple(2) [OF this assms(2)] show ?thesis .
next
  case False
  then have l: "exponent d < exponent x" by simp
  note g = exponent_gap [OF l]
  from g assms(2) have "2 powi (exponent x) \<le> x" by linarith
  moreover have "2 powi (exponent x) = of_int (2 ^ 52) * ulp x"
    by (rule binade_start)
  ultimately have "2 powi (exponent x) \<le> double_round x"
    using double_round_multiple(2) [of "2 powi (exponent x)" "2 ^ 52" x] by simp
  with g show ?thesis by linarith
qed

lemma exponent_twice: "exponent d \<le> exponent (2 * d) \<and> exponent (2 * d) \<le> exponent d + 1"
proof
  show "exponent d \<le> exponent (2 * d)" by (rule exponent_mono) simp
  show "exponent (2 * d) \<le> exponent d + 1"
  proof (rule ccontr)
    assume "\<not> exponent (2 * d) \<le> exponent d + 1"
    then have l: "exponent d + 1 < exponent (2 * d)" by simp
    then have "exponent d < exponent (2 * d)" by simp
    from exponent_gap [OF this] have a: "2 powi (exponent (2 * d)) \<le> \<bar>2 * d\<bar>" by simp
    from l exponent_range [of "2 * d"] have "exponent d < 1023" by linarith
    then have b: "\<bar>d\<bar> < 2 powi (exponent d + 1)" by (rule exponent_upper)
    from l have "(2::real) powi (exponent d + 1 + 1) \<le> 2 powi (exponent (2 * d))"
      by (intro power_int_increasing) simp_all
    then have "2 * 2 powi (exponent d + 1) \<le> (2::real) powi (exponent (2 * d))"
      by (simp only: powi_Suc)
    with a b show False by (simp add: abs_mult)
  qed
qed

lemma is_double_twice:
  assumes "is_double d"
  shows "is_double (2 * d)"
proof -
  from assms obtain k where k: "d = of_int k * ulp d"
    unfolding is_double_multiple ..
  from exponent_twice [of d]
  consider "exponent (2 * d) = exponent d" | "exponent (2 * d) = exponent d + 1" by linarith
  then show ?thesis
  proof cases
    case 1
    then have "ulp (2 * d) = ulp d" by (simp add: ulp_def)
    then have "2 * d = of_int (2 * k) * ulp (2 * d)" using k by simp
    then show ?thesis unfolding is_double_multiple ..
  next
    case 2
    then have "exponent (2 * d) - 52 = (exponent d - 52) + 1" by simp
    then have "ulp (2 * d) = 2 * ulp d" by (simp only: ulp_def powi_Suc)
    then have "2 * d = of_int k * ulp (2 * d)" using k by simp
    then show ?thesis unfolding is_double_multiple ..
  qed
qed

lemma midpoint_between:
  assumes "is_double b" "is_double a" "b \<le> a"
  shows "b \<le> double_round (double_round (b + a) / 2) \<and>
         double_round (double_round (b + a) / 2) \<le> a"
proof -
  have "2 * b \<le> b + a" "b + a \<le> 2 * a" using assms(3) by simp_all
  with is_double_twice [OF assms(1)] is_double_twice [OF assms(2)]
  have "2 * b \<le> double_round (b + a)" "double_round (b + a) \<le> 2 * a"
    by (simp_all add: double_round_ge double_round_le)
  then have "b \<le> double_round (b + a) / 2" "double_round (b + a) / 2 \<le> a" by simp_all
  with assms(1,2) show ?thesis by (simp add: double_round_ge double_round_le)
qed

section \<open>The midpoint of two keys\<close>



text \<open>
  Against C1 as stated: \<open>1\<close> and \<open>1 + 1 / 2 ^ 52\<close> are two doubles with nothing between
  them. Their sum rounds to \<open>2\<close>, the computed midpoint is \<open>1\<close>, the key before, and
  the allocator asks for the renumbering: it returns no key strictly between the two.
\<close>

theorem allocate_adjacent_counterexample:
  "is_double 1 \<and> is_double (1 + 1 / 2 ^ 52) \<and> (1::real) < 1 + 1 / 2 ^ 52 \<and>
   double_midpoint 1 (1 + 1 / 2 ^ 52) = 1 \<and>
   allocate (\<lambda>x. x + 1) (Some 1) (Some (1 + 1 / 2 ^ 52)) = Renumber"
  by code_simp

text \<open>
  C1, amended: for two doubles \<open>b < a\<close>, both present and of magnitude below
  \<open>2 ^ 1023\<close> (so that their sum does not overflow), the allocator computes the midpoint
  \<open>(b + a) / 2\<close> in double arithmetic. When the computed midpoint differs from both keys,
  the allocator returns it and it is strictly greater than \<open>b\<close> and strictly less than
  \<open>a\<close>; when it equals one of them, the allocator returns no key and asks for the
  renumbering. When the sum and its half are doubles themselves, the key returned is the
  arithmetic midpoint.
\<close>

theorem allocate_double_midpoint:
  assumes "is_double b" and "is_double a" and "b < a"
    and "\<bar>b\<bar> < 2 ^ 1023" and "\<bar>a\<bar> < 2 ^ 1023"
  shows "(double_midpoint b a = b \<or> double_midpoint b a = a \<longrightarrow>
            allocate tailKey (Some b) (Some a) = Renumber) \<and>
         (double_midpoint b a \<noteq> b \<and> double_midpoint b a \<noteq> a \<longrightarrow>
            allocate tailKey (Some b) (Some a) = Key (double_midpoint b a) \<and>
            b < double_midpoint b a \<and> double_midpoint b a < a) \<and>
         (double_round (b + a) = b + a \<and> double_round ((b + a) / 2) = (b + a) / 2 \<longrightarrow>
            allocate tailKey (Some b) (Some a) = Key ((b + a) / 2) \<and>
            b < (b + a) / 2 \<and> (b + a) / 2 < a)"
proof -
  let ?m = "double_midpoint b a"
  from assms(3) have le: "b \<le> a" by simp
  from midpoint_between [OF assms(1,2) le]
  have between: "b \<le> ?m" "?m \<le> a" by (simp_all add: double_midpoint_def)
  have al: "allocate tailKey (Some b) (Some a) =
        (if ?m = b \<or> ?m = a then Renumber else Key ?m)"
  proof -
    from assms(3) have n: "(a < b) = False" "(b = a) = False" by simp_all
    show ?thesis by (simp only: allocate.simps Let_def n if_False simp_thms)
  qed
  have one: "?m = b \<or> ?m = a \<longrightarrow> allocate tailKey (Some b) (Some a) = Renumber"
    unfolding al by simp
  have two: "?m \<noteq> b \<and> ?m \<noteq> a \<longrightarrow>
            allocate tailKey (Some b) (Some a) = Key ?m \<and> b < ?m \<and> ?m < a"
    unfolding al using between by simp
  have three: "double_round (b + a) = b + a \<and> double_round ((b + a) / 2) = (b + a) / 2 \<longrightarrow>
            allocate tailKey (Some b) (Some a) = Key ((b + a) / 2) \<and>
            b < (b + a) / 2 \<and> (b + a) / 2 < a"
  proof
    assume "double_round (b + a) = b + a \<and> double_round ((b + a) / 2) = (b + a) / 2"
    then have m: "?m = (b + a) / 2" by (simp add: double_midpoint_def)
    have s: "b < (b + a) / 2" "(b + a) / 2 < a" using assms(3) by simp_all
    then have "?m \<noteq> b" "?m \<noteq> a" unfolding m by simp_all
    then have "allocate tailKey (Some b) (Some a) = Key ((b + a) / 2)"
      unfolding al by (simp add: m)
    with s show "allocate tailKey (Some b) (Some a) = Key ((b + a) / 2) \<and>
            b < (b + a) / 2 \<and> (b + a) / 2 < a" by simp
  qed
  from one two three show ?thesis by (intro conjI)
qed

theorem allocate_double_midpoint_witness:
  "is_double 1 \<and> is_double 2 \<and> (1::real) < 2 \<and> \<bar>1::real\<bar> < 2 ^ 1023 \<and> \<bar>2::real\<bar> < 2 ^ 1023 \<and>
   double_midpoint 1 2 = 3 / 2 \<and>
   allocate (\<lambda>x. x + 1) (Some 1) (Some 2) = Key (3 / 2) \<and> (1::real) < 3 / 2 \<and> (3::real) / 2 < 2"
proof -
  have d: "is_double 1" "is_double 2" "double_midpoint 1 2 = 3 / 2"
    by code_simp+
  have o: "(1::real) < 2" "\<bar>1::real\<bar> < 2 ^ 1023" "\<bar>2::real\<bar> < 2 ^ 1023"
    by simp_all
  from allocate_double_midpoint [OF d(1,2) o, of "\<lambda>x. x + 1"] d(3)
  have "allocate (\<lambda>x. x + 1) (Some 1) (Some 2) = Key (3 / 2) \<and> (1::real) < 3 / 2 \<and> (3::real) / 2 < 2"
    by simp
  with d o show ?thesis by simp
qed

section \<open>Keys at the head of a column\<close>



lemma reorder_found:
  assumes "find (\<lambda>i. issue_id i = iid) tbl = Some moved"
    and "k \<le> length (column (projectId moved) st iid tbl)"
  shows "reorder tailKey iid st (int k) tbl =
     (case allocate tailKey (beforeKey (column (projectId moved) st iid tbl) k)
                           (afterKey (column (projectId moved) st iid tbl) k) of
        Violation \<Rightarrow> Inl AssertionFailed
      | Key key \<Rightarrow>
          Inr (map (\<lambda>i. if issue_id i = iid
                         then i\<lparr>status := st, listPosition := key\<rparr> else i) tbl)
      | Renumber \<Rightarrow>
          Inr (renumber
                 (map issue_id (take k (column (projectId moved) st iid tbl)) @ [iid] @
                  map issue_id (drop k (column (projectId moved) st iid tbl)))
                 (map (\<lambda>i. if issue_id i = iid then i\<lparr>status := st\<rparr> else i) tbl)))"
  using assms(2) unfolding reorder_def assms(1) Let_def nat_int by simp











section \<open>Errors of the reorder handler\<close>

text \<open>
  C7: a reorder of an issue id that no stored issue has ends in the not-found error; a
  destination index that is negative or greater than the length of the destination column
  ends in the invalid-input error, whatever the allocator would return (the index is not
  clamped); in both cases the database is left as it was.
\<close>

theorem reorder_errors:
  "(find (\<lambda>i. issue_id i = iid) (issues db) = None \<longrightarrow>
      reorder_db tailKey iid st idx db = (Inl NotFound, db)) \<and>
   (find (\<lambda>i. issue_id i = iid) (issues db) = Some moved \<and>
    (idx < 0 \<or> int (length (column (projectId moved) st iid (issues db))) < idx) \<longrightarrow>
      reorder_db tailKey iid st idx db = (Inl InvalidInput, db))"
  by (simp add: reorder_db_def reorder_def Let_def)

theorem reorder_errors_witness:
  "find (\<lambda>i. issue_id i = 9) (issues (empty_database\<lparr>issues := sample_board\<rparr>)) = None \<and>
   reorder_db (\<lambda>x. x + 1) 9 BACKLOG 0 (empty_database\<lparr>issues := sample_board\<rparr>) =
     (Inl NotFound, empty_database\<lparr>issues := sample_board\<rparr>) \<and>
   find (\<lambda>i. issue_id i = 3) (issues (empty_database\<lparr>issues := sample_board\<rparr>)) =
     Some (sample_issue 3 1 BACKLOG 3 ''C'' None None) \<and>
   int (length (column 1 BACKLOG 3 (issues (empty_database\<lparr>issues := sample_board\<rparr>)))) < 3 \<and>
   reorder_db (\<lambda>x. x + 1) 3 BACKLOG 3 (empty_database\<lparr>issues := sample_board\<rparr>) =
     (Inl InvalidInput, empty_database\<lparr>issues := sample_board\<rparr>) \<and>
   reorder_db (\<lambda>x. x + 1) 3 BACKLOG (- 1) (empty_database\<lparr>issues := sample_board\<rparr>) =
     (Inl InvalidInput, empty_database\<lparr>issues := sample_board\<rparr>)"
proof -
  let ?db = "empty_database\<lparr>issues := sample_board\<rparr>"
  let ?C = "sample_issue 3 1 BACKLOG 3 ''C'' None None"
  have n: "find (\<lambda>i. issue_id i = 9) (issues ?db) = None"
    by (simp add: sample_board_def sample_issue_def)
  have f: "find (\<lambda>i. issue_id i = 3) (issues ?db) = Some ?C"
    by (simp add: sample_board_def sample_issue_def)
  have l: "int (length (column 1 BACKLOG 3 (issues ?db))) < 3"
    by (simp add: sample_board_def sample_issue_def column_def)
  have p: "projectId ?C = 1" by (simp add: sample_issue_def)
  from reorder_errors [where iid = 9 and db = ?db and tailKey = "\<lambda>x. x + 1" and st = BACKLOG and idx = 0 and moved = ?C] n
  have a: "reorder_db (\<lambda>x. x + 1) 9 BACKLOG 0 ?db = (Inl NotFound, ?db)" by blast
  from reorder_errors [where iid = 3 and db = ?db and tailKey = "\<lambda>x. x + 1" and st = BACKLOG and idx = 3 and moved = ?C] f l p
  have b: "reorder_db (\<lambda>x. x + 1) 3 BACKLOG 3 ?db = (Inl InvalidInput, ?db)" by simp
  from reorder_errors [where iid = 3 and db = ?db and tailKey = "\<lambda>x. x + 1" and st = BACKLOG and idx = "- 1" and moved = ?C] f
  have c: "reorder_db (\<lambda>x. x + 1) 3 BACKLOG (- 1) ?db = (Inl InvalidInput, ?db)" by simp
  show ?thesis using n f l a b c by simp
qed

section \<open>Listing without a search term\<close>





section \<open>Comments and the removal of an issue\<close>

lemma filter_length_one_remove:
  assumes "k \<noteq> iid"
  shows "filter (\<lambda>i. issue_id i = k) (filter (\<lambda>i. issue_id i \<noteq> iid) xs) =
         filter (\<lambda>i. issue_id i = k) xs"
  using assms by (induction xs) auto

text \<open>
  C9: removing an issue removes every comment of that issue and leaves the comments of the
  other issues, and the users, as they were; if every comment named exactly one stored issue
  and exactly one stored user before, every remaining comment still does.
\<close>

theorem remove_Issue_cascade:
  "issues (remove_Issue iid db) = filter (\<lambda>i. issue_id i \<noteq> iid) (issues db) \<and>
   filter (\<lambda>c. issueId c = iid) (comments (remove_Issue iid db)) = [] \<and>
   filter (\<lambda>c. issueId c \<noteq> iid) (comments (remove_Issue iid db)) =
     filter (\<lambda>c. issueId c \<noteq> iid) (comments db) \<and>
   users (remove_Issue iid db) = users db \<and>
   ((\<forall>c \<in> set (comments db). comment_owned db c) \<longrightarrow>
    (\<forall>c \<in> set (comments (remove_Issue iid db)). comment_owned (remove_Issue iid db) c))"
proof (intro conjI impI ballI)
  fix c
  assume all: "\<forall>c \<in> set (comments db). comment_owned db c"
    and c: "c \<in> set (comments (remove_Issue iid db))"
  from c have cin: "c \<in> set (comments db)" and ne: "issueId c \<noteq> iid"
    by (simp_all add: remove_Issue_def)
  from all cin have "comment_owned db c" by blast
  then show "comment_owned (remove_Issue iid db) c"
    using filter_length_one_remove [OF ne, of "issues db"]
    by (simp add: comment_owned_def remove_Issue_def)
qed (simp_all add: remove_Issue_def filter_empty_conv)



theorem remove_Issue_cascade_witness:
  "comment_owned sample_database (sample_comment 1 1 1) \<and>
   comment_owned sample_database (sample_comment 2 1 2) \<and>
   comment_owned sample_database (sample_comment 3 1 1) \<and>
   comments (remove_Issue 1 sample_database) = [sample_comment 2 1 2] \<and>
   comment_owned (remove_Issue 1 sample_database) (sample_comment 2 1 2)"
proof -
  have o: "\<forall>c \<in> set (comments sample_database). comment_owned sample_database c"
    by (simp add: sample_database_def sample_board_def sample_issue_def sample_comment_def
          sample_user_def comment_owned_def empty_database_def)
  have c: "comments (remove_Issue 1 sample_database) = [sample_comment 2 1 2]"
    by (simp add: sample_database_def remove_Issue_def sample_comment_def empty_database_def)
  from remove_Issue_cascade [of 1 sample_database] o
  have "\<forall>c \<in> set (comments (remove_Issue 1 sample_database)).
          comment_owned (remove_Issue 1 sample_database) c"
    by blast
  then have "comment_owned (remove_Issue 1 sample_database) (sample_comment 2 1 2)"
    unfolding c by simp
  moreover have "comment_owned sample_database (sample_comment 1 1 1) \<and>
   comment_owned sample_database (sample_comment 2 1 2) \<and>
   comment_owned sample_database (sample_comment 3 1 1)"
    using o by (simp add: sample_database_def empty_database_def)
  ultimately show ?thesis using c by simp
qed

section \<open>The plain-text projection on a write\<close>

lemma strip_example: "striptags ''<p>Hello <b>World</b></p>'' = ''Hello World''"
  by (simp add: striptags_def)

text \<open>
  Against C5 as stated: an issue stored with the description \<^verbatim>\<open><p>old</p>\<close> and the
  projection \<^verbatim>\<open>old\<close> is updated to the empty description. The hook skips an empty
  description, so the entity and the stored row keep the projection \<^verbatim>\<open>old\<close>, which is
  not what stripping the tags of the new description gives.
\<close>

theorem setDescriptionText_stale_counterexample:
  "descriptionText
     (fst (save_Issue (sample_issue 1 1 BACKLOG 1 ''A'' (Some []) (Some ''old''))
        (empty_database\<lparr>issues := [sample_issue 1 1 BACKLOG 1 ''A'' (Some ''<p>old</p>'') (Some ''old'')]\<rparr>)))
     = Some ''old'' \<and>
   map descriptionText
     (issues (snd (save_Issue (sample_issue 1 1 BACKLOG 1 ''A'' (Some []) (Some ''old''))
        (empty_database\<lparr>issues := [sample_issue 1 1 BACKLOG 1 ''A'' (Some ''<p>old</p>'') (Some ''old'')]\<rparr>))))
     = [Some ''old''] \<and>
   striptags [] = [] \<and> Some ''old'' \<noteq> Some (striptags [])"
  by (simp add: save_Issue_def setDescriptionText_def sample_issue_def striptags_def Let_def
        empty_database_def)

text \<open>
  C5, amended: on every insert and every update of an issue whose description is neither
  null nor empty, the projection is set to the description with its tags stripped before the
  row is stored, and the stored row carries it; when the description is null or empty the
  hook leaves the projection as it was. Writing the description
  \<^verbatim>\<open><p>Hello <b>World</b></p>\<close> leaves the projection \<^verbatim>\<open>Hello World\<close>. The query
  returns stored rows as they are: it does not derive the projection.
\<close>

theorem descriptionText_on_write:
  "(description i = Some d \<and> d \<noteq> [] \<longrightarrow>
      descriptionText (fst (createEntity_Issue i db)) = Some (striptags d) \<and>
      descriptionText (fst (save_Issue i db)) = Some (striptags d)) \<and>
   (description i = None \<or> description i = Some [] \<longrightarrow>
      descriptionText (fst (createEntity_Issue i db)) = descriptionText i \<and>
      descriptionText (fst (save_Issue i db)) = descriptionText i) \<and>
   issues (snd (createEntity_Issue i db)) = issues db @ [fst (createEntity_Issue i db)] \<and>
   issues (snd (save_Issue i db)) =
     map (\<lambda>r. if issue_id r = issue_id i then fst (save_Issue i db) else r) (issues db) \<and>
   descriptionText (fst (save_Issue (i\<lparr>description := Some ''<p>Hello <b>World</b></p>''\<rparr>) db)) =
     Some ''Hello World'' \<and>
   descriptionText (fst (createEntity_Issue (i\<lparr>description := Some ''<p>Hello <b>World</b></p>''\<rparr>) db)) =
     Some ''Hello World'' \<and>
   set (listIssues pid searchTerm (issues db)) \<subseteq> set (issues db)"
proof -
  have q: "set (listIssues pid searchTerm (issues db)) \<subseteq> set (issues db)"
    by (auto simp add: listIssues_def)
  have k: "issue_id (setDescriptionText i) = issue_id i"
    by (simp add: setDescriptionText_def split: option.splits)
  have stored: "issues (snd (createEntity_Issue i db)) = issues db @ [fst (createEntity_Issue i db)]"
    "issues (snd (save_Issue i db)) =
       map (\<lambda>r. if issue_id r = issue_id i then fst (save_Issue i db) else r) (issues db)"
    by (simp_all add: createEntity_Issue_def save_Issue_def Let_def k)
  have hook: "description i = Some d \<and> d \<noteq> [] \<longrightarrow>
      descriptionText (fst (createEntity_Issue i db)) = Some (striptags d) \<and>
      descriptionText (fst (save_Issue i db)) = Some (striptags d)"
    "description i = None \<or> description i = Some [] \<longrightarrow>
      descriptionText (fst (createEntity_Issue i db)) = descriptionText i \<and>
      descriptionText (fst (save_Issue i db)) = descriptionText i"
    by (auto simp add: createEntity_Issue_def save_Issue_def Let_def setDescriptionText_def)
  have hello:
    "descriptionText (fst (save_Issue (i\<lparr>description := Some ''<p>Hello <b>World</b></p>''\<rparr>) db)) =
       Some ''Hello World''"
    "descriptionText (fst (createEntity_Issue (i\<lparr>description := Some ''<p>Hello <b>World</b></p>''\<rparr>) db)) =
       Some ''Hello World''"
    by (simp_all add: createEntity_Issue_def save_Issue_def Let_def setDescriptionText_def
          strip_example)
  from stored hook hello q show ?thesis by blast
qed

theorem descriptionText_on_write_witness:
  "description (sample_issue 1 1 BACKLOG 1 ''A'' (Some ''<i>x</i> y'') None) = Some ''<i>x</i> y'' \<and>
   ''<i>x</i> y'' \<noteq> [] \<and>
   descriptionText (fst (createEntity_Issue (sample_issue 1 1 BACKLOG 1 ''A'' (Some ''<i>x</i> y'') None)
      empty_database)) = Some ''x y'' \<and>
   description (sample_issue 1 1 BACKLOG 1 ''A'' None (Some ''kept'')) = None \<and>
   descriptionText (fst (save_Issue (sample_issue 1 1 BACKLOG 1 ''A'' None (Some ''kept''))
      empty_database)) = Some ''kept''"
proof -
  let ?i = "sample_issue 1 1 BACKLOG 1 ''A'' (Some ''<i>x</i> y'') None"
  let ?j = "sample_issue 1 1 BACKLOG 1 ''A'' None (Some ''kept'')"
  have d: "description ?i = Some ''<i>x</i> y''" "description ?j = None"
    "descriptionText ?j = Some ''kept''"
    by (simp_all add: sample_issue_def)
  have s: "striptags ''<i>x</i> y'' = ''x y''" by (simp add: striptags_def)
  from descriptionText_on_write [of ?i "''<i>x</i> y''" empty_database] d(1)
  have a: "descriptionText (fst (createEntity_Issue ?i empty_database)) = Some ''x y''"
    by (simp add: s)
  from descriptionText_on_write [of ?j "[]" empty_database] d(2,3)
  have b: "descriptionText (fst (save_Issue ?j empty_database)) = Some ''kept''"
    by simp
  show ?thesis using d a b by simp
qed



section \<open>Listing with a search term\<close>

text \<open>
  A pattern \<^verbatim>\<open>%t%\<close> whose \<open>t\<close> has no \<^verbatim>\<open>%\<close>, \<^verbatim>\<open>_\<close> or backslash matches exactly
  the texts that contain \<open>t\<close>.
\<close>

lemma like_percent_only: "like ''%'' s"
  by (induction s) simp_all

lemma like_percent:
  "like (CHR ''%'' # ps) s \<longleftrightarrow> (\<exists>pre post. s = pre @ post \<and> like ps post)"
proof (induction s)
  case Nil
  show ?case by simp
next
  case (Cons c cs)
  have "like (CHR ''%'' # ps) (c # cs) \<longleftrightarrow>
        like ps (c # cs) \<or> (\<exists>pre post. cs = pre @ post \<and> like ps post)"
    using Cons.IH by simp
  also have "\<dots> \<longleftrightarrow> (\<exists>pre post. c # cs = pre @ post \<and> like ps post)"
  proof
    assume "like ps (c # cs) \<or> (\<exists>pre post. cs = pre @ post \<and> like ps post)"
    then show "\<exists>pre post. c # cs = pre @ post \<and> like ps post"
    proof
      assume "like ps (c # cs)"
      then have "c # cs = [] @ (c # cs) \<and> like ps (c # cs)" by simp
      then show ?thesis by blast
    next
      assume "\<exists>pre post. cs = pre @ post \<and> like ps post"
      then obtain pre post where "cs = pre @ post" "like ps post" by blast
      then have "c # cs = (c # pre) @ post \<and> like ps post" by simp
      then show ?thesis by blast
    qed
  next
    assume "\<exists>pre post. c # cs = pre @ post \<and> like ps post"
    then obtain pre post where p: "c # cs = pre @ post" "like ps post" by blast
    show "like ps (c # cs) \<or> (\<exists>pre post. cs = pre @ post \<and> like ps post)"
    proof (cases pre)
      case Nil
      with p show ?thesis by simp
    next
      case (Cons x xs)
      with p have "cs = xs @ post" by simp
      with p(2) show ?thesis by blast
    qed
  qed
  finally show ?case .
qed

lemma like_literal_prefix:
  "wildcard_free t \<Longrightarrow> like (t @ ''%'') s \<longleftrightarrow> prefix t s"
proof (induction t arbitrary: s)
  case Nil
  show ?case using like_percent_only by simp
next
  case (Cons p ps)
  then have w: "p \<noteq> CHR ''%''" "p \<noteq> CHR ''_''" "p \<noteq> CHR 0x5C" "wildcard_free ps"
    by (auto simp: wildcard_free_def)
  show ?case
  proof (cases s)
    case Nil
    then show ?thesis using w by simp
  next
    case (Cons c cs)
    then show ?thesis using w Cons.IH [OF w(4), of cs] by auto
  qed
qed

lemma like_contains:
  assumes "wildcard_free t"
  shows "like (''%'' @ t @ ''%'') s \<longleftrightarrow> sublist t s"
proof -
  have "like (''%'' @ t @ ''%'') s \<longleftrightarrow> (\<exists>pre post. s = pre @ post \<and> like (t @ ''%'') post)"
    using like_percent [of "t @ ''%''" s] by simp
  also have "\<dots> \<longleftrightarrow> (\<exists>pre post. s = pre @ post \<and> prefix t post)"
    using like_literal_prefix [OF assms] by simp
  also have "\<dots> \<longleftrightarrow> sublist t s"
    by (auto simp: sublist_def prefix_def)
  finally show ?thesis .
qed

lemma lower_char_wildcard:
  "lower_char c = CHR ''%'' \<longleftrightarrow> c = CHR ''%''"
  "lower_char c = CHR ''_'' \<longleftrightarrow> c = CHR ''_''"
  "lower_char c = CHR 0x5C \<longleftrightarrow> c = CHR 0x5C"
proof -
  have up: "lower_char c \<noteq> c \<Longrightarrow> 97 \<le> (of_char (lower_char c) :: nat)"
    by (auto simp add: lower_char_def Let_def split: if_splits)
  have low: "(of_char x :: nat) < 65 \<Longrightarrow> lower_char x = x" for x
    by (simp add: lower_char_def Let_def)
  have high: "(of_char x :: nat) > 90 \<Longrightarrow> lower_char x = x" for x
    by (simp add: lower_char_def Let_def)
  show "lower_char c = CHR ''%'' \<longleftrightarrow> c = CHR ''%''"
    using up low [of "CHR ''%''"] by (cases "lower_char c = c") auto
  show "lower_char c = CHR ''_'' \<longleftrightarrow> c = CHR ''_''"
    using up high [of "CHR ''_''"] by (cases "lower_char c = c") auto
  show "lower_char c = CHR 0x5C \<longleftrightarrow> c = CHR 0x5C"
    using up high [of "CHR 0x5C"] by (cases "lower_char c = c") auto
qed

lemma wildcard_free_lower:
  assumes "wildcard_free t"
  shows "wildcard_free (map lower_char t)"
proof -
  have "c \<in> set (map lower_char t) \<Longrightarrow> c \<in> {CHR ''%'', CHR ''_'', CHR 0x5C} \<Longrightarrow> c \<in> set t" for c
  proof -
    assume "c \<in> set (map lower_char t)" and c: "c \<in> {CHR ''%'', CHR ''_'', CHR 0x5C}"
    then obtain x where x: "x \<in> set t" "lower_char x = c" by auto
    from c x(2) have "x = c" using lower_char_wildcard [of x] by auto
    with x(1) show "c \<in> set t" by simp
  qed
  with assms show ?thesis unfolding wildcard_free_def by blast
qed

lemma ilike_contains:
  assumes "wildcard_free t"
  shows "ilike (''%'' @ t @ ''%'') s \<longleftrightarrow> contains_ci s t"
proof -
  have "map lower_char (''%'' @ t @ ''%'') = ''%'' @ map lower_char t @ ''%''"
    using lower_char_wildcard(1) [of "CHR ''%''"] by simp
  then show ?thesis
    using like_contains [OF wildcard_free_lower [OF assms], of "map lower_char s"]
    by (simp add: ilike_def contains_ci_def)
qed

lemma listIssues_search:
  assumes "wildcard_free t"
  shows "listIssues pid (Some t) tbl =
         filter (\<lambda>i. projectId i = pid \<and> contains_ci (title i) t) tbl"
  unfolding listIssues_def by (simp only: option.case ilike_contains [OF assms])


text \<open>The titles of the seeded issues.\<close>

lemma seedIssues_titles:
  "map title (fst (seedIssues pus db)) =
     [''This is an issue of type: Task.'',
      ''Click on an issue to see what's behind it.'',
      ''Try dragging issues to different columns to transition their status.'',
      ''You can use rich text with images in issue descriptions.'',
      ''Each issue can be assigned priority from lowest to highest.'',
      ''Each issue has a single reporter but can have multiple assignees.'',
      ''You can track how many hours were spent working on an issue, and how many hours remain.'',
      ''Try leaving a comment on this issue.'']"
  unfolding seedIssues_def Let_def
  by (simp add: all_createEntity_Issue_fields del: all_createEntity_Issue.simps append.simps)

lemma createGuestAccount_issues:
  "\<exists>pus db2. issues (snd (createGuestAccount db)) = issues db @ fst (seedIssues pus db2)"
proof -
  obtain us db1 where s1: "seedUsers db = (us, db1)" by (cases "seedUsers db")
  obtain pus db2 where s2: "seedProject us db1 = (pus, db2)" by (cases "seedProject us db1")
  obtain iss db3 where s3: "seedIssues pus db2 = (iss, db3)" by (cases "seedIssues pus db2")
  obtain cs db4 where s4: "seedComments iss (snd pus) db3 = (cs, db4)"
    by (cases "seedComments iss (snd pus) db3")
  have r: "snd (createGuestAccount db) = db4"
    by (simp add: createGuestAccount_def s1 s2 s3 s4)
  have "issues db1 = issues db"
    using seedUsers_result [of db] s1 by simp
  moreover have "issues db2 = issues db1"
    using seedProject_result [of us db1] s2 by simp
  moreover have "issues db3 = issues db2 @ iss"
    using seedIssues_result [of pus db2] s3 by simp
  moreover have "issues db4 = issues db3"
    using seedComments_result [of iss "snd pus" db3] s4 by simp
  ultimately have "issues db4 = issues db @ fst (seedIssues pus db2)"
    by (simp add: s3)
  then show ?thesis unfolding r by blast
qed

lemma seeded_titles:
  "map title (issues (snd (createGuestAccount empty_database))) =
     [''This is an issue of type: Task.'',
      ''Click on an issue to see what's behind it.'',
      ''Try dragging issues to different columns to transition their status.'',
      ''You can use rich text with images in issue descriptions.'',
      ''Each issue can be assigned priority from lowest to highest.'',
      ''Each issue has a single reporter but can have multiple assignees.'',
      ''You can track how many hours were spent working on an issue, and how many hours remain.'',
      ''Try leaving a comment on this issue.'']"
proof -
  obtain pus db2 where "issues (snd (createGuestAccount empty_database)) =
      issues empty_database @ fst (seedIssues pus db2)"
    using createGuestAccount_issues by blast
  then show ?thesis
    by (simp only: seedIssues_titles empty_database_def database.simps append_Nil)
qed

lemma silence_absent:
  "list_all (\<lambda>t. \<not> ilike ''%silence%'' t)
     [''This is an issue of type: Task.'',
      ''Click on an issue to see what's behind it.'',
      ''Try dragging issues to different columns to transition their status.'',
      ''You can use rich text with images in issue descriptions.'',
      ''Each issue can be assigned priority from lowest to highest.'',
      ''Each issue has a single reporter but can have multiple assignees.'',
      ''You can track how many hours were spent working on an issue, and how many hours remain.'',
      ''Try leaving a comment on this issue.'']"
  by code_simp

lemma zzz_absent:
  "list_all (\<lambda>t. \<not> ilike ''%zzz-not-present%'' t)
     [''This is an issue of type: Task.'',
      ''Click on an issue to see what's behind it.'',
      ''Try dragging issues to different columns to transition their status.'',
      ''You can use rich text with images in issue descriptions.'',
      ''Each issue can be assigned priority from lowest to highest.'',
      ''Each issue has a single reporter but can have multiple assignees.'',
      ''You can track how many hours were spent working on an issue, and how many hours remain.'',
      ''Try leaving a comment on this issue.'']"
  by code_simp

lemma pond: "\<not> ilike ''%silence%'' ''An old silent pond''"
  by code_simp


lemma listIssues_no_title:
  assumes "list_all (\<lambda>t. \<not> ilike (''%'' @ s @ ''%'') t) (map title tbl)"
  shows "listIssues pid (Some s) tbl = []"
  using assms by (simp add: listIssues_def list_all_iff filter_empty_conv)

text \<open>
  Against C4 as stated: the search for \<^verbatim>\<open>silence\<close> does not return an issue whose title
  and plain-text description are \<^verbatim>\<open>An old silent pond\<close>, since that text does not
  contain the term; and on the seeded data the search returns nothing (the seeded text with
  \<^verbatim>\<open>An old silent pond\<close> is the body of a comment, and no seeded title contains the term).
\<close>

theorem listIssues_silence_counterexample:
  "listIssues 1 (Some ''silence'')
     [sample_issue 1 1 BACKLOG 1 ''An old silent pond'' (Some ''<p>An old silent pond</p>'')
        (Some ''An old silent pond'')] = [] \<and>
   listIssues 1 (Some ''silence'') (issues (snd (createGuestAccount empty_database))) = []"
proof -
  have a: "listIssues 1 (Some ''silence'')
     [sample_issue 1 1 BACKLOG 1 ''An old silent pond'' (Some ''<p>An old silent pond</p>'')
        (Some ''An old silent pond'')] = []"
    using pond by (intro listIssues_no_title) (simp add: sample_issue_def)
  have b: "listIssues 1 (Some ''silence'') (issues (snd (createGuestAccount empty_database))) = []"
    using silence_absent by (intro listIssues_no_title) (simp only: seeded_titles append.simps)
  from a b show ?thesis by simp
qed

text \<open>
  C4, amended: for a search term without \<^verbatim>\<open>%\<close>, \<^verbatim>\<open>_\<close> and backslash,
  \<^verbatim>\<open>listIssues\<close> returns only issues of the project whose title or plain-text description
  contains the term, letters compared without case, and it returns every issue of the project
  whose title contains it; a term that occurs in no issue gives the empty list; on the seeded
  data the searches for \<^verbatim>\<open>silence\<close> and for \<^verbatim>\<open>zzz-not-present\<close> give the empty list.
\<close>

theorem listIssues_search_term:
  "wildcard_free s \<Longrightarrow>
     (\<forall>i \<in> set (listIssues pid (Some s) tbl).
         i \<in> set tbl \<and> projectId i = pid \<and>
         (contains_ci (title i) s \<or> (\<exists>d. descriptionText i = Some d \<and> contains_ci d s))) \<and>
     (\<forall>i \<in> set tbl. projectId i = pid \<and> contains_ci (title i) s \<longrightarrow>
         i \<in> set (listIssues pid (Some s) tbl)) \<and>
     ((\<forall>i \<in> set tbl. \<not> contains_ci (title i) s \<and>
                       (\<forall>d. descriptionText i = Some d \<longrightarrow> \<not> contains_ci d s)) \<longrightarrow>
         listIssues pid (Some s) tbl = []) \<and>
     listIssues pid (Some ''silence'') (issues (snd (createGuestAccount empty_database))) = [] \<and>
     listIssues pid (Some ''zzz-not-present'') (issues (snd (createGuestAccount empty_database))) = []"
proof -
  assume w: "wildcard_free s"
  note eq = listIssues_search [OF w, of pid tbl]
  have a: "\<forall>i \<in> set (listIssues pid (Some s) tbl).
         i \<in> set tbl \<and> projectId i = pid \<and>
         (contains_ci (title i) s \<or> (\<exists>d. descriptionText i = Some d \<and> contains_ci d s))"
    unfolding eq by simp
  have b: "\<forall>i \<in> set tbl. projectId i = pid \<and> contains_ci (title i) s \<longrightarrow>
         i \<in> set (listIssues pid (Some s) tbl)"
    unfolding eq by simp
  have c: "(\<forall>i \<in> set tbl. \<not> contains_ci (title i) s \<and>
                       (\<forall>d. descriptionText i = Some d \<longrightarrow> \<not> contains_ci d s)) \<longrightarrow>
         listIssues pid (Some s) tbl = []"
    unfolding eq by (simp add: filter_empty_conv)
  have d: "listIssues pid (Some ''silence'') (issues (snd (createGuestAccount empty_database))) = []"
    using silence_absent by (intro listIssues_no_title) (simp only: seeded_titles append.simps)
  have e: "listIssues pid (Some ''zzz-not-present'')
             (issues (snd (createGuestAccount empty_database))) = []"
    using zzz_absent by (intro listIssues_no_title) (simp only: seeded_titles append.simps)
  from a b c d e show ?thesis by blast
qed

theorem listIssues_search_term_witness:
  "wildcard_free ''old'' \<and>
   projectId (sample_issue 1 1 BACKLOG 1 ''An OLD silent pond'' None None) = 1 \<and>
   contains_ci (title (sample_issue 1 1 BACKLOG 1 ''An OLD silent pond'' None None)) ''old'' \<and>
   sample_issue 1 1 BACKLOG 1 ''An OLD silent pond'' None None \<in>
     set (listIssues 1 (Some ''old'')
            [sample_issue 1 1 BACKLOG 1 ''An OLD silent pond'' None None,
             sample_issue 2 1 BACKLOG 2 ''A frog'' None None,
             sample_issue 3 2 BACKLOG 1 ''old'' None None]) \<and>
   listIssues 1 (Some ''old'')
            [sample_issue 1 1 BACKLOG 1 ''An OLD silent pond'' None None,
             sample_issue 2 1 BACKLOG 2 ''A frog'' None None,
             sample_issue 3 2 BACKLOG 1 ''old'' None None] =
     [sample_issue 1 1 BACKLOG 1 ''An OLD silent pond'' None None]"
proof -
  let ?A = "sample_issue 1 1 BACKLOG 1 ''An OLD silent pond'' None None"
  let ?tbl = "[?A, sample_issue 2 1 BACKLOG 2 ''A frog'' None None,
               sample_issue 3 2 BACKLOG 1 ''old'' None None]"
  have w: "wildcard_free ''old''" by (simp add: wildcard_free_def)
  have p: "projectId ?A = 1" by (simp add: sample_issue_def)
  have t: "title ?A = ''An OLD silent pond''" by (simp add: sample_issue_def)
  have c: "contains_ci ''An OLD silent pond'' ''old''" by code_simp
  have m: "?A \<in> set ?tbl" by simp
  from listIssues_search_term [OF w, of 1 ?tbl] m p c t
  have i: "?A \<in> set (listIssues 1 (Some ''old'') ?tbl)" by auto
  have n: "\<not> ilike ''%old%'' ''A frog''" by code_simp
  have y: "ilike ''%old%'' ''An OLD silent pond''" by code_simp
  have l: "listIssues 1 (Some ''old'') ?tbl = [?A]"
    using n y by (simp add: listIssues_def sample_issue_def)
  from w p c t i l show ?thesis by simp
qed



section \<open>What a reorder changes\<close>

lemma index_of_None: "index_of x ys = None \<longleftrightarrow> x \<notin> set ys"
  by (induction ys) auto

lemma column_set:
  "set (column pid st iid tbl) =
   {i \<in> set tbl. projectId i = pid \<and> status i = st \<and> issue_id i \<noteq> iid}"
  by (auto simp: column_def)

lemma renumber_length: "length (renumber order tbl) = length tbl"
  by (simp add: renumber_def)

lemma renumber_nth:
  assumes "n < length tbl"
  shows "renumber order tbl ! n =
     (case index_of (issue_id (tbl ! n)) order of
        None \<Rightarrow> tbl ! n
      | Some k \<Rightarrow> (tbl ! n)\<lparr>listPosition := of_nat (k + 1)\<rparr>)"
  using assms by (simp add: renumber_def)

lemma reorder_Inr_range:
  assumes "find (\<lambda>i. issue_id i = iid) tbl = Some moved"
    and "reorder tailKey iid st idx tbl = Inr tbl'"
  shows "0 \<le> idx \<and> nat idx \<le> length (column (projectId moved) st iid tbl)"
proof (rule ccontr)
  assume "\<not> (0 \<le> idx \<and> nat idx \<le> length (column (projectId moved) st iid tbl))"
  then have "idx < 0 \<or> int (length (column (projectId moved) st iid tbl)) < idx" by linarith
  then have "reorder tailKey iid st idx tbl = Inl InvalidInput"
    unfolding reorder_def assms(1) Let_def by simp
  with assms(2) show False by simp
qed

lemma distinct_same_id:
  assumes "distinct (map issue_id tbl)" "x \<in> set tbl" "y \<in> set tbl" "issue_id x = issue_id y"
  shows "x = y"
  using assms by (meson distinct_map inj_onD)

text \<open>
  C6, amended: on a table with unique ids, a reorder that succeeds changes only the status
  and the list position of the moved issue. Every issue outside the destination column, so
  every issue that stays in the source column of a move across columns, keeps all its
  fields. The other issues of the destination column keep all their fields too unless the
  allocator asks for the renumbering (the two neighbour keys at the index are equal, or their
  computed midpoint equals one of them); then they keep every field but the list position.
\<close>

theorem reorder_frame:
  assumes d: "distinct (map issue_id tbl)"
    and f: "find (\<lambda>i. issue_id i = iid) tbl = Some moved"
    and r: "reorder tailKey iid st idx tbl = Inr tbl'"
  shows "length tbl' = length tbl \<and>
     (\<forall>n < length tbl.
        (issue_id (tbl ! n) = iid \<longrightarrow>
           (\<exists>key. tbl' ! n = (tbl ! n)\<lparr>status := st, listPosition := key\<rparr>)) \<and>
        (issue_id (tbl ! n) \<noteq> iid \<longrightarrow>
           (\<exists>key. tbl' ! n = (tbl ! n)\<lparr>listPosition := key\<rparr>)) \<and>
        (issue_id (tbl ! n) \<noteq> iid \<and>
         (projectId (tbl ! n) \<noteq> projectId moved \<or> status (tbl ! n) \<noteq> st) \<longrightarrow>
           tbl' ! n = tbl ! n) \<and>
        (issue_id (tbl ! n) \<noteq> iid \<and>
         allocate tailKey (beforeKey (column (projectId moved) st iid tbl) (nat idx))
                          (afterKey (column (projectId moved) st iid tbl) (nat idx)) \<noteq> Renumber \<longrightarrow>
           tbl' ! n = tbl ! n))"
    (is "_ \<and> (\<forall>n < _. ?A n \<and> ?B n \<and> ?C n \<and> ?D n)")
proof -
  let ?col = "column (projectId moved) st iid tbl"
  let ?k = "nat idx"
  let ?order = "map issue_id (take ?k ?col) @ [iid] @ map issue_id (drop ?k ?col)"
  let ?upd = "\<lambda>i. if issue_id i = iid then i\<lparr>status := st\<rparr> else i"
  from reorder_Inr_range [OF f r] have rng: "0 \<le> idx" "?k \<le> length ?col" by simp_all
  then have idx: "idx = int ?k" by simp
  note found = reorder_found [OF f rng(2), of tailKey, folded idx]
  have order_set: "set ?order = insert iid (issue_id ` set ?col)"
  proof -
    have "set (take ?k ?col) \<union> set (drop ?k ?col) = set ?col"
      by (metis append_take_drop_id set_append)
    then show ?thesis by auto
  qed
  have same: "\<exists>key. x = x\<lparr>listPosition := key\<rparr>" for x :: issue
    by (rule exI [of _ "listPosition x"]) simp
  have "length tbl' = length tbl \<and> (\<forall>n < length tbl. ?A n \<and> ?B n \<and> ?C n \<and> ?D n)"
  proof (cases "allocate tailKey (beforeKey ?col ?k) (afterKey ?col ?k)")
    case (Key key)
    with found r have t: "tbl' = map (\<lambda>i. if issue_id i = iid
                         then i\<lparr>status := st, listPosition := key\<rparr> else i) tbl"
      by simp
    have len: "length tbl' = length tbl" by (simp add: t)
    have row: "?A n \<and> ?B n \<and> ?C n \<and> ?D n" if n: "n < length tbl" for n
    proof -
      have a: "?A n" using n unfolding t by auto
      have keep: "issue_id (tbl ! n) \<noteq> iid \<longrightarrow> tbl' ! n = tbl ! n"
        using n unfolding t by auto
      have b: "?B n"
      proof
        assume "issue_id (tbl ! n) \<noteq> iid"
        with keep have "tbl' ! n = tbl ! n" by (rule mp)
        with same [of "tbl ! n"] show "\<exists>key. tbl' ! n = (tbl ! n)\<lparr>listPosition := key\<rparr>"
          by (simp only:)
      qed
      have c: "?C n" using keep by (intro impI) (elim conjE, erule mp)
      have d: "?D n" using keep by (intro impI) (elim conjE, erule mp)
      show ?thesis by (intro conjI a b c d)
    qed
    show ?thesis
    proof (rule conjI [OF len], rule allI, rule impI)
      fix n assume "n < length tbl"
      then show "?A n \<and> ?B n \<and> ?C n \<and> ?D n" by (rule row)
    qed
  next
    case Violation
    with found r show ?thesis by simp
  next
    case Renumber
    with found r have t: "tbl' = renumber ?order (map ?upd tbl)" by simp
    have len: "length tbl' = length tbl" by (simp add: t renumber_length)
    have row: "?A n \<and> ?B n \<and> ?C n \<and> ?D n" if n: "n < length tbl" for n
    proof -
      let ?x = "tbl ! n"
      have xin: "?x \<in> set tbl" using n by simp
      have m: "map ?upd tbl ! n = ?upd ?x" using n by simp
      have id_upd: "issue_id (?upd ?x) = issue_id ?x" by simp
      have "n < length (map ?upd tbl)" using n by simp
      from renumber_nth [OF this, of ?order]
      have nth: "tbl' ! n =
         (case index_of (issue_id ?x) ?order of
            None \<Rightarrow> ?upd ?x
          | Some j \<Rightarrow> (?upd ?x)\<lparr>listPosition := of_nat (j + 1)\<rparr>)"
        unfolding t m id_upd .
      have a: "?A n"
      proof
        assume e: "issue_id ?x = iid"
        then have "iid \<in> set ?order" by simp
        then obtain j where "index_of (issue_id ?x) ?order = Some j"
          using e index_of_None [of iid ?order] by (cases "index_of iid ?order") auto
        then have "tbl' ! n = ?x\<lparr>status := st, listPosition := of_nat (j + 1)\<rparr>"
          unfolding nth using e by simp
        then show "\<exists>key. tbl' ! n = ?x\<lparr>status := st, listPosition := key\<rparr>" by (rule exI)
      qed
      have b: "?B n"
      proof
        assume e: "issue_id ?x \<noteq> iid"
        show "\<exists>key. tbl' ! n = ?x\<lparr>listPosition := key\<rparr>"
        proof (cases "index_of (issue_id ?x) ?order")
          case None
          then have "tbl' ! n = ?x\<lparr>listPosition := listPosition ?x\<rparr>"
            unfolding nth using e by simp
          then show ?thesis by (rule exI)
        next
          case (Some j)
          then have "tbl' ! n = ?x\<lparr>listPosition := of_nat (j + 1)\<rparr>"
            unfolding nth using e by simp
          then show ?thesis by (rule exI)
        qed
      qed
      have c: "?C n"
      proof
        assume e: "issue_id ?x \<noteq> iid \<and> (projectId ?x \<noteq> projectId moved \<or> status ?x \<noteq> st)"
        have "issue_id ?x \<notin> set ?order"
        proof
          assume "issue_id ?x \<in> set ?order"
          with e order_set obtain y where y: "y \<in> set ?col" "issue_id y = issue_id ?x" by auto
          then have yt: "y \<in> set tbl" "projectId y = projectId moved" "status y = st"
            by (simp_all add: column_set)
          from distinct_same_id [OF d yt(1) xin y(2)] have "y = ?x" .
          with yt e show False by simp
        qed
        then have "index_of (issue_id ?x) ?order = None" by (rule iffD2 [OF index_of_None])
        then show "tbl' ! n = ?x" unfolding nth using e by simp
      qed
      have d: "?D n" using Renumber by simp
      show ?thesis by (intro conjI a b c d)
    qed
    show ?thesis
    proof (rule conjI [OF len], rule allI, rule impI)
      fix n assume "n < length tbl"
      then show "?A n \<and> ?B n \<and> ?C n \<and> ?D n" by (rule row)
    qed
  qed
  then show ?thesis .
qed


theorem reorder_frame_witness:
  "distinct (map issue_id sample_board) \<and>
   find (\<lambda>i. issue_id i = 3) sample_board = Some (sample_issue 3 1 BACKLOG 3 ''C'' None None) \<and>
   reorder (\<lambda>x. x + 1) 3 SELECTED 0 sample_board =
     Inr [sample_issue 1 1 BACKLOG 1 ''A'' None None,
          sample_issue 2 1 BACKLOG 2 ''B'' None None,
          sample_issue 3 1 SELECTED 1 ''C'' None None] \<and>
   [sample_issue 1 1 BACKLOG 1 ''A'' None None,
    sample_issue 2 1 BACKLOG 2 ''B'' None None,
    sample_issue 3 1 SELECTED 1 ''C'' None None] ! 0 = sample_board ! 0 \<and>
   [sample_issue 1 1 BACKLOG 1 ''A'' None None,
    sample_issue 2 1 BACKLOG 2 ''B'' None None,
    sample_issue 3 1 SELECTED 1 ''C'' None None] ! 1 = sample_board ! 1"
proof -
  let ?C = "sample_issue 3 1 BACKLOG 3 ''C'' None None"
  let ?tbl' = "[sample_issue 1 1 BACKLOG 1 ''A'' None None,
                sample_issue 2 1 BACKLOG 2 ''B'' None None,
                sample_issue 3 1 SELECTED 1 ''C'' None None]"
  have d: "distinct (map issue_id sample_board)"
    by (simp add: sample_board_def sample_issue_def)
  have f: "find (\<lambda>i. issue_id i = 3) sample_board = Some ?C"
    by (simp add: sample_board_def sample_issue_def)
  have r: "reorder (\<lambda>x. x + 1) 3 SELECTED 0 sample_board = Inr ?tbl'"
    by (simp add: reorder_def sample_board_def sample_issue_def column_def beforeKey_def
          afterKey_def Let_def)
  have l: "0 < length sample_board" "1 < length sample_board"
    by (simp_all add: sample_board_def)
  have s: "status ?C \<noteq> SELECTED" "issue_id (sample_board ! 0) \<noteq> 3"
    "issue_id (sample_board ! 1) \<noteq> 3" "status (sample_board ! 0) \<noteq> SELECTED"
    "status (sample_board ! 1) \<noteq> SELECTED"
    by (simp_all add: sample_board_def sample_issue_def)
  from reorder_frame [OF d f r] l s
  have "?tbl' ! 0 = sample_board ! 0" "?tbl' ! 1 = sample_board ! 1"
    by blast+
  with d f r show ?thesis by (simp only: simp_thms)
qed

text \<open>
  Against C6 as stated: the backlog holds A and B, both at the key 1, and C is moved from
  the selected column to index 1 of the backlog. The neighbour keys are equal, the backlog is
  renumbered, and B, which was not moved, goes from the key 1 to the key 3.
\<close>

theorem reorder_renumbers_counterexample:
  "reorder (\<lambda>x. x + 1) 3 BACKLOG 1
     [sample_issue 1 1 BACKLOG 1 ''A'' None None,
      sample_issue 2 1 BACKLOG 1 ''B'' None None,
      sample_issue 3 1 SELECTED 5 ''C'' None None] =
   Inr [sample_issue 1 1 BACKLOG 1 ''A'' None None,
        sample_issue 2 1 BACKLOG 3 ''B'' None None,
        sample_issue 3 1 BACKLOG 2 ''C'' None None]"
  by (simp add: reorder_def sample_issue_def column_def beforeKey_def afterKey_def Let_def
        renumber_def)

end
